theory Spec2Isabelle
  imports Main "HOL-Library.Word" "HOL-Library.Signed_Division" "HOL-Library.Log_Nat"
begin

section \<open>The ad-hoc network sweep of main.cc\<close>

text \<open>
  The program drives the ns-3 simulator. The simulator itself is not part of the
  repository: a call into it is recorded as an event, with the arguments the program
  passes, and what the simulator hands back (the addresses it assigned, the flow
  statistics of a finished run) is an argument of the model. C++ \<open>int\<close> is \<open>int\<close> here; where the source could
  overflow a signed integer (undefined behaviour) or index a container out of range,
  the model stops with an error value.
\<close>

datatype error = IndexOutOfRange | SignedOverflow

definition INT_MAX :: int where
  "INT_MAX = 2147483647"

subsection \<open>Simulation times\<close>

text \<open>
  ns-3's \<open>Time\<close> at its default resolution: a signed count of nanoseconds. The program
  builds times from whole seconds and whole milliseconds only.
\<close>

datatype Time = NanoSeconds int

definition Seconds :: "int \<Rightarrow> Time" where
  "Seconds s = NanoSeconds (s * 1000000000)"

definition MilliSeconds :: "int \<Rightarrow> Time" where
  "MilliSeconds ms = NanoSeconds (ms * 1000000)"

fun time_minus :: "Time \<Rightarrow> Time \<Rightarrow> Time" where
  "time_minus (NanoSeconds a) (NanoSeconds b) = NanoSeconds (a - b)"

text \<open>
  \<open>Time / integer\<close>: the nanosecond count divided as a 64-bit signed integer, which
  truncates towards zero. The source only divides when the divisor is positive.
\<close>

fun time_div :: "Time \<Rightarrow> 32 word \<Rightarrow> Time" where
  "time_div (NanoSeconds a) n = NanoSeconds (a sdiv uint n)"

subsection \<open>Simulation constants\<close>

definition kGridWidth :: nat where "kGridWidth = 6"
definition kPort :: nat where "kPort = 443"
definition kPacketSize :: nat where "kPacketSize = 512"
definition kSimulationStartTime :: Time where "kSimulationStartTime = Seconds 1"
definition kSimulationStopTime :: Time where "kSimulationStopTime = Seconds 25"

subsection \<open>Nodes and applications\<close>

type_synonym Ipv4Address = "32 word"

text \<open>
  A node of the container, with the local address of its interface 1 (what
  \<open>GetObject<Ipv4>()->GetAddress(1, 0).GetLocal()\<close> reads).
\<close>

record Node =
  node_index :: nat
  local_address :: Ipv4Address

type_synonym NodeContainer = "Node list"

text \<open>
  \<open>NodeContainer::Get\<close> takes a \<open>uint32_t\<close>: an \<open>int\<close> argument is converted
  modulo \<open>2 ^ 32\<close>. The container does not check the index; reading past its end is
  an error of the model.
\<close>

definition Get :: "NodeContainer \<Rightarrow> int \<Rightarrow> error + Node" where
  "Get nodes i =
     (let k = nat (i mod 2 ^ 32)
      in if k < length nodes then Inr (nodes ! k) else Inl IndexOutOfRange)"

datatype Application =
    UdpEchoClient Ipv4Address nat "64 word" Time nat
  | UdpEchoServer nat

text \<open>
  An application as installed: the node it runs on, the application with its
  attributes (a client: remote address, remote port, MaxPackets, Interval,
  PacketSize; a server: the port it listens on), and its start and stop times.
\<close>

record Installed =
  on_node :: Node
  application :: Application
  start_time :: Time
  stop_time :: Time

definition client_app :: "Node \<Rightarrow> Node \<Rightarrow> int \<Rightarrow> int \<Rightarrow> Installed" where
  "client_app dst nd interval maxPackets =
     \<lparr>on_node = nd,
      application = UdpEchoClient (local_address dst) kPort (word_of_int maxPackets)
                      (MilliSeconds interval) kPacketSize,
      start_time = kSimulationStartTime,
      stop_time = kSimulationStopTime\<rparr>"

definition server_app :: "Node \<Rightarrow> Installed" where
  "server_app nd =
     \<lparr>on_node = nd, application = UdpEchoServer kPort,
      start_time = kSimulationStartTime, stop_time = kSimulationStopTime\<rparr>"

text \<open>
  The client loop of \<open>SetupApplications\<close>, from \<open>i\<close> on: the remote node is
  \<open>nodes.Get((i + 1) % nWifi)\<close>, the client is installed on \<open>nodes.Get(i)\<close>.
  \<open>%\<close> is C++'s remainder (\<open>smod\<close>); \<open>i + 1\<close> cannot overflow, since
  \<open>i < nWifi\<close>.
\<close>

function SetupApplications_clients ::
  "NodeContainer \<Rightarrow> int \<Rightarrow> int \<Rightarrow> int \<Rightarrow> int \<Rightarrow> error + Installed list" where
  "SetupApplications_clients nodes nWifi interval maxPackets i =
     (if i < nWifi then
        (case Get nodes ((i + 1) smod nWifi) of
           Inl e \<Rightarrow> Inl e
         | Inr dst \<Rightarrow>
            (case Get nodes i of
               Inl e \<Rightarrow> Inl e
             | Inr nd \<Rightarrow>
                (case SetupApplications_clients nodes nWifi interval maxPackets (i + 1) of
                   Inl e \<Rightarrow> Inl e
                 | Inr rest \<Rightarrow> Inr (client_app dst nd interval maxPackets # rest))))
      else Inr [])"
  by pat_completeness auto
termination
  by (relation "measure (\<lambda>(nodes, nWifi, interval, maxPackets, i). nat (nWifi - i))") auto

declare SetupApplications_clients.simps [simp del]

text \<open>
  \<open>SetupApplications\<close>: the clients, then one server on \<open>nodes.Get(nWifi - 1)\<close>.
  \<open>nWifi - 1\<close> overflows only at the least \<open>int\<close>.
\<close>

definition SetupApplications ::
  "NodeContainer \<Rightarrow> int \<Rightarrow> int \<Rightarrow> int \<Rightarrow> error + Installed list" where
  "SetupApplications nodes nWifi interval maxPackets =
     (case SetupApplications_clients nodes nWifi interval maxPackets 0 of
        Inl e \<Rightarrow> Inl e
      | Inr clients \<Rightarrow>
         if nWifi = - INT_MAX - 1 then Inl SignedOverflow
         else (case Get nodes (nWifi - 1) of
                 Inl e \<Rightarrow> Inl e
               | Inr nd \<Rightarrow> Inr (clients @ [server_app nd])))"


subsection \<open>IEEE 754 binary64 arithmetic\<close>

text \<open>
  C++ \<open>double\<close> as IEEE 754 binary64, every operation rounded once to \<open>double\<close>
  (no wider intermediate format). A \<open>double\<close> is a sign (\<open>True\<close> for negative) with
  a magnitude, an infinity with a sign, or not-a-number. Every operation computes the
  exact rational result and rounds it to the nearest binary64 value, ties to the even
  significand: 53 significant bits, least exponent \<open>-1022\<close> (below it the spacing
  stays \<open>2 ^ -1074\<close>), and overflow to infinity from \<open>2 ^ 1024\<close> on.
\<close>

datatype double = Finite bool rat | Infinite bool | NaN

text \<open>\<open>ilog2 q\<close> is the exponent \<open>e\<close> with \<open>2 ^ e \<le> q < 2 ^ (e + 1)\<close>, for \<open>q > 0\<close>.\<close>

definition ilog2 :: "rat \<Rightarrow> int" where
  "ilog2 q = (if 1 \<le> q then bitlen \<lfloor>q\<rfloor> - 1 else - bitlen (\<lceil>1 / q\<rceil> - 1))"

definition round_even :: "rat \<Rightarrow> int" where
  "round_even x =
     (let f = \<lfloor>x\<rfloor>; d = x - of_int f
      in if d < 1 / 2 then f else if 1 / 2 < d then f + 1 else if even f then f else f + 1)"

definition ulp_exponent :: "rat \<Rightarrow> int" where
  "ulp_exponent q = max (ilog2 q) (- 1022) - 52"

definition round_binary64 :: "rat \<Rightarrow> rat" where
  "round_binary64 q =
     (if q = 0 then 0
      else of_int (round_even (q / 2 powi ulp_exponent q)) * 2 powi ulp_exponent q)"

definition to_double :: "bool \<Rightarrow> rat \<Rightarrow> double" where
  "to_double s q = (let r = round_binary64 q in if 2 ^ 1024 \<le> r then Infinite s else Finite s r)"

fun dmul :: "double \<Rightarrow> double \<Rightarrow> double" where
  "dmul NaN _ = NaN"
| "dmul _ NaN = NaN"
| "dmul (Infinite s) (Infinite t) = Infinite (s \<noteq> t)"
| "dmul (Infinite s) (Finite t q) = (if q = 0 then NaN else Infinite (s \<noteq> t))"
| "dmul (Finite s p) (Infinite t) = (if p = 0 then NaN else Infinite (s \<noteq> t))"
| "dmul (Finite s p) (Finite t q) = to_double (s \<noteq> t) (p * q)"

fun ddiv :: "double \<Rightarrow> double \<Rightarrow> double" where
  "ddiv NaN _ = NaN"
| "ddiv _ NaN = NaN"
| "ddiv (Infinite s) (Infinite t) = NaN"
| "ddiv (Infinite s) (Finite t q) = Infinite (s \<noteq> t)"
| "ddiv (Finite s p) (Infinite t) = Finite (s \<noteq> t) 0"
| "ddiv (Finite s p) (Finite t q) =
     (if q = 0 then (if p = 0 then NaN else Infinite (s \<noteq> t))
      else to_double (s \<noteq> t) (p / q))"

definition signed :: "bool \<Rightarrow> rat \<Rightarrow> rat" where
  "signed s p = (if s then - p else p)"

fun dadd :: "double \<Rightarrow> double \<Rightarrow> double" where
  "dadd NaN _ = NaN"
| "dadd _ NaN = NaN"
| "dadd (Infinite s) (Infinite t) = (if s = t then Infinite s else NaN)"
| "dadd (Infinite s) (Finite t q) = Infinite s"
| "dadd (Finite s p) (Infinite t) = Infinite t"
| "dadd (Finite s p) (Finite t q) =
     (let v = signed s p + signed t q
      in if v = 0 then Finite (s \<and> t) 0 else to_double (v < 0) \<bar>v\<bar>)"

text \<open>Conversions of integers to \<open>double\<close> round to nearest as well.\<close>

definition uint_to_double :: "nat \<Rightarrow> double" where
  "uint_to_double n = to_double False (of_nat n)"

definition int_to_double :: "int \<Rightarrow> double" where
  "int_to_double i = to_double (i < 0) \<bar>of_int i\<bar>"

text \<open>
  \<open>Time::GetSeconds\<close>: the nanosecond count in seconds, as a \<open>double\<close>. The program
  only asks for the seconds of a whole number of seconds.
\<close>

fun GetSeconds :: "Time \<Rightarrow> double" where
  "GetSeconds (NanoSeconds n) = to_double (n < 0) (\<bar>of_int n\<bar> / 1000000000)"

definition kMinX :: double where "kMinX = Finite False 0"
definition kMinY :: double where "kMinY = Finite False 0"
definition kDeltaX :: double where "kDeltaX = Finite False 5"
definition kDeltaY :: double where "kDeltaY = Finite False 10"

subsection \<open>Flow statistics and the report\<close>

text \<open>
  The fields of ns-3's \<open>FlowMonitor::FlowStats\<close> that the program reads, with their
  C++ types: 64-bit byte counts, 32-bit packet counts, a \<open>Time\<close>.
\<close>

record FlowStats =
  txBytes :: "64 word"
  rxBytes :: "64 word"
  txPackets :: "32 word"
  rxPackets :: "32 word"
  lostPackets :: "32 word"
  delaySum :: Time

text \<open>A value-initialised \<open>FlowStats\<close>: every counter zero, the delay sum zero.\<close>

definition FlowStats_default :: FlowStats where
  "FlowStats_default =
     \<lparr>txBytes = 0, rxBytes = 0, txPackets = 0, rxPackets = 0, lostPackets = 0,
      delaySum = NanoSeconds 0\<rparr>"

text \<open>\<open>FlowStatsContainer\<close> is \<open>std::map<FlowId, FlowStats>\<close>, \<open>FlowId\<close> being \<open>uint32_t\<close>.\<close>

type_synonym FlowStatsContainer = "32 word \<rightharpoonup> FlowStats"

text \<open>
  \<open>std::map::operator[]\<close>: the mapped value, and the map afterwards. A key that is
  absent is inserted with a value-initialised record first.
\<close>

definition subscript :: "FlowStatsContainer \<Rightarrow> 32 word \<Rightarrow> FlowStats \<times> FlowStatsContainer" where
  "subscript m k =
     (case m k of
        Some v \<Rightarrow> (v, m)
      | None \<Rightarrow> (FlowStats_default, m(k \<mapsto> FlowStats_default)))"

text \<open>What is inserted into \<open>cout\<close>, one item per \<open><<\<close>.\<close>

datatype out_item =
    Str string
  | IntV int
  | U32 "32 word"
  | Dbl double
  | TimeV Time
  | Endl

text \<open>
  The expression \<open>(bytes * 8.0) / (simulationTime.GetSeconds() * 1000.0)\<close>, which the
  source writes once for \<open>txBytes\<close> and once for \<open>rxBytes\<close>.
\<close>

definition bitrate :: "64 word \<Rightarrow> Time \<Rightarrow> double" where
  "bitrate bytes simulationTime =
     ddiv (dmul (uint_to_double (unat bytes)) (Finite False 8))
          (dmul (GetSeconds simulationTime) (Finite False 1000))"

definition tx_bitrate_line :: "FlowStats \<Rightarrow> Time \<Rightarrow> out_item list" where
  "tx_bitrate_line s simulationTime =
     Str ''TX bitrates: '' #
     (if 0 < txBytes s then [Dbl (bitrate (txBytes s) simulationTime), Str '' kbit/s'', Endl]
      else [Str ''None'', Endl])"

definition rx_bitrate_line :: "FlowStats \<Rightarrow> Time \<Rightarrow> out_item list" where
  "rx_bitrate_line s simulationTime =
     Str ''RX bitrate: '' #
     (if 0 < rxBytes s then [Dbl (bitrate (rxBytes s) simulationTime), Str '' kbit/s'', Endl]
      else [Str ''None'', Endl])"

definition mean_delay_line :: "FlowStats \<Rightarrow> out_item list" where
  "mean_delay_line s =
     Str ''Mean delay: '' #
     (if 0 < rxPackets s then [TimeV (time_div (delaySum s) (rxPackets s)), Endl]
      else [Str ''None'', Endl])"

definition lossRatio :: "FlowStats \<Rightarrow> double" where
  "lossRatio s =
     dmul (ddiv (uint_to_double (unat (lostPackets s))) (uint_to_double (unat (txPackets s))))
          (Finite False 100)"

definition loss_ratio_line :: "FlowStats \<Rightarrow> out_item list" where
  "loss_ratio_line s = [Str ''Packet loss ratio: '', Dbl (lossRatio s), Str ''%'', Endl]"

text \<open>
  One iteration of the loop of \<open>PrintFlowStatistics\<close>, for the record \<open>s\<close> that
  \<open>stats[i]\<close> yields.
\<close>

definition print_flow :: "int \<Rightarrow> FlowStats \<Rightarrow> Time \<Rightarrow> out_item list" where
  "print_flow i s simulationTime =
     [Str ''======= '', Str ''FlowID: '', IntV i, Str '' ======='', Endl]
     @ tx_bitrate_line s simulationTime
     @ rx_bitrate_line s simulationTime
     @ [Str ''TX packets: '', U32 (txPackets s), Endl]
     @ [Str ''RX packets: '', U32 (rxPackets s), Endl]
     @ mean_delay_line s
     @ loss_ratio_line s"

text \<open>
  The loop \<open>for (int i = 2; i <= nWifi; i++)\<close>, from \<open>i\<close> on. The first \<open>stats[i]\<close>
  of an iteration may insert the key; the later ones of the same iteration find it and
  read the same record (\<open>subscript_again\<close> below). \<open>i++\<close> at the greatest \<open>int\<close>
  overflows.
\<close>

function PrintFlowStatistics_loop ::
  "FlowStatsContainer \<Rightarrow> Time \<Rightarrow> int \<Rightarrow> int \<Rightarrow> error + out_item list" where
  "PrintFlowStatistics_loop stats simulationTime nWifi i =
     (if i \<le> nWifi then
        (case subscript stats (word_of_int i) of
           (s, stats') \<Rightarrow>
             if i = INT_MAX then Inl SignedOverflow
             else (case PrintFlowStatistics_loop stats' simulationTime nWifi (i + 1) of
                     Inl e \<Rightarrow> Inl e
                   | Inr rest \<Rightarrow> Inr (print_flow i s simulationTime @ rest)))
      else Inr [])"
  by pat_completeness auto
termination
  by (relation "measure (\<lambda>(stats, simulationTime, nWifi, i). nat (nWifi + 1 - i))") auto

declare PrintFlowStatistics_loop.simps [simp del]

text \<open>
  \<open>PrintFlowStatistics\<close>, its argument being the container that
  \<open>flowMonitor->GetFlowStats()\<close> returns after \<open>CheckForLostPackets()\<close>; the program
  works on a copy of it.
\<close>

definition PrintFlowStatistics :: "FlowStatsContainer \<Rightarrow> int \<Rightarrow> error + out_item list" where
  "PrintFlowStatistics flowStats nWifi =
     (let stats = flowStats;
          simulationTime = time_minus kSimulationStopTime kSimulationStartTime
      in PrintFlowStatistics_loop stats simulationTime nWifi 2)"

text \<open>The \<open>int\<close> values inserted into \<open>cout\<close>, in order: the flow identifiers.\<close>

fun ints_printed :: "out_item list \<Rightarrow> int list" where
  "ints_printed [] = []"
| "ints_printed (IntV i # xs) = i # ints_printed xs"
| "ints_printed (_ # xs) = ints_printed xs"


subsection \<open>One run and the sweep\<close>

text \<open>\<open>std::to_string\<close>, \<open>%d\<close> and \<open><<\<close> on integers: the decimal digits, with a sign.\<close>

fun to_string_nat :: "nat \<Rightarrow> string" where
  "to_string_nat n =
     (if n < 10 then [''0123456789'' ! n]
      else to_string_nat (n div 10) @ [''0123456789'' ! (n mod 10)])"

declare to_string_nat.simps [simp del]

definition to_string_int :: "int \<Rightarrow> string" where
  "to_string_int i = (if i < 0 then ''-'' @ to_string_nat (nat (- i)) else to_string_nat (nat i))"

text \<open>
  The calls into the simulator, in the order the program makes them. Nodes are named by
  their index in the container.
\<close>

datatype event =
    LogComponentEnable string string
  | SetDefault string nat
  | NodesCreate nat
  | MobilityInstall "(nat \<times> double \<times> double) list"
  | WifiInstall string string "nat list"
  | InternetStackInstall "nat list"
  | Ipv4Assign string string
  | PopulateRoutingTables
  | EnablePcap string nat
  | FlowMonitorInstallAll
  | ApplicationInstall Installed
  | SimulatorStop Time
  | SimulatorRun
  | SimulatorDestroy
  | SerializeToXmlFile string bool bool
  | AnimationInterface string
  | SetConstantPosition nat double double
  | CheckForLostPackets
  | GetFlowStats
  | Cout out_item

text \<open>
  What the simulator hands back in one run: the address it assigned to the device of
  each node, and the flow statistics at the end.
\<close>

record Engine =
  assigned_address :: "nat \<Rightarrow> Ipv4Address"
  flow_stats :: FlowStatsContainer

definition ConfigureLogging :: "event list" where
  "ConfigureLogging =
     [LogComponentEnable ''UdpEchoClientApplication'' ''LOG_LEVEL_INFO'',
      LogComponentEnable ''UdpEchoServerApplication'' ''LOG_LEVEL_INFO'']"

definition ConfigureRtsCtsThreshold :: "event list" where
  "ConfigureRtsCtsThreshold =
     [SetDefault ''ns3::WifiRemoteStationManager::RtsCtsThreshold'' 1000]"

text \<open>
  Modelled from the spec: ns-3's \<open>GridPositionAllocator\<close>, which \<open>SetupWifiNodes\<close>
  configures with the grid constants and the row-first layout, is not in src/. The
  specification (4.1, Topology Planner) gives its placement: node \<open>k\<close> is in column
  \<open>k mod gridWidth\<close> and row \<open>k div gridWidth\<close>, at \<open>x = originX + column * dx\<close>,
  \<open>y = originY + row * dy\<close>.
\<close>

definition grid_position :: "nat \<Rightarrow> double \<times> double" where
  "grid_position k =
     (dadd kMinX (dmul kDeltaX (uint_to_double (k mod kGridWidth))),
      dadd kMinY (dmul kDeltaY (uint_to_double (k div kGridWidth))))"

text \<open>
  \<open>SetupWifiNodes\<close>: \<open>nodes.Create\<close> takes a \<open>uint32_t\<close>; the mobility helper places
  the nodes on the grid. The result is the indices of the created nodes and the calls.
\<close>

definition SetupWifiNodes :: "int \<Rightarrow> nat list \<times> event list" where
  "SetupWifiNodes nWifi =
     (let n = nat (nWifi mod 2 ^ 32)
      in ([0..<n],
          [NodesCreate n, MobilityInstall (map (\<lambda>k. (k, grid_position k)) [0..<n])]))"

text \<open>
  \<open>SetupWifiNetwork\<close>: devices, internet stack, addresses, routes, and one pcap trace
  per device, named \<open>"wifi-node-" + std::to_string(i) + ".pcap"\<close>. The result is the
  container of the nodes, each with the address assigned to it, and the calls.
\<close>

definition SetupWifiNetwork :: "(nat \<Rightarrow> Ipv4Address) \<Rightarrow> nat list \<Rightarrow> NodeContainer \<times> event list" where
  "SetupWifiNetwork assigned ids =
     (map (\<lambda>k. \<lparr>node_index = k, local_address = assigned k\<rparr>) ids,
      [WifiInstall ''WIFI_STANDARD_80211p'' ''ns3::AdhocWifiMac'' ids,
       InternetStackInstall ids,
       Ipv4Assign ''10.1.1.0'' ''255.255.255.0'',
       PopulateRoutingTables]
      @ map (\<lambda>i. EnablePcap (''wifi-node-'' @ to_string_nat i @ ''.pcap'') (ids ! i))
          [0..<length ids])"

text \<open>
  The loop of \<open>ExportAnimation\<close>, from \<open>i\<close> on: \<open>i * 10\<close> is an \<open>int\<close> product and
  must not overflow; it and \<open>0\<close> are converted to \<open>double\<close> for the call.
\<close>

function ExportAnimation_loop :: "NodeContainer \<Rightarrow> int \<Rightarrow> int \<Rightarrow> error + event list" where
  "ExportAnimation_loop nodes nWifi i =
     (if i < nWifi then
        (case Get nodes i of
           Inl e \<Rightarrow> Inl e
         | Inr nd \<Rightarrow>
            if INT_MAX < i * 10 \<or> i * 10 < - INT_MAX - 1 then Inl SignedOverflow
            else (case ExportAnimation_loop nodes nWifi (i + 1) of
                    Inl e \<Rightarrow> Inl e
                  | Inr rest \<Rightarrow>
                     Inr (SetConstantPosition (node_index nd) (int_to_double (i * 10))
                            (int_to_double 0) # rest)))
      else Inr [])"
  by pat_completeness auto
termination
  by (relation "measure (\<lambda>(nodes, nWifi, i). nat (nWifi - i))") auto

declare ExportAnimation_loop.simps [simp del]

definition ExportAnimation :: "NodeContainer \<Rightarrow> int \<Rightarrow> error + event list" where
  "ExportAnimation nodes nWifi =
     (let animfile = ''anim-'' @ to_string_int nWifi @ ''-nodes.xml''
      in case ExportAnimation_loop nodes nWifi 0 of
           Inl e \<Rightarrow> Inl e
         | Inr positions \<Rightarrow> Inr (AnimationInterface animfile # positions))"

text \<open>
  \<open>RunSimulation\<close>: the calls of one run, in order. An error of a part is the error of
  the run.
\<close>

definition RunSimulation :: "Engine \<Rightarrow> int \<Rightarrow> int \<Rightarrow> int \<Rightarrow> error + event list" where
  "RunSimulation engine nWifi interval maxPackets =
     (case SetupWifiNodes nWifi of
        (ids, created) \<Rightarrow>
     (case SetupWifiNetwork (assigned_address engine) ids of
        (nodes, network) \<Rightarrow>
     (case SetupApplications nodes nWifi interval maxPackets of
        Inl e \<Rightarrow> Inl e
      | Inr apps \<Rightarrow>
     (case ExportAnimation nodes nWifi of
        Inl e \<Rightarrow> Inl e
      | Inr animation \<Rightarrow>
     (case PrintFlowStatistics (flow_stats engine) nWifi of
        Inl e \<Rightarrow> Inl e
      | Inr report \<Rightarrow>
         Inr (ConfigureLogging @ ConfigureRtsCtsThreshold
              @ created @ network
              @ [FlowMonitorInstallAll]
              @ map ApplicationInstall apps
              @ [SimulatorStop kSimulationStopTime,
                 Cout (Str ''Simulation running...''), Cout Endl,
                 SimulatorRun,
                 SimulatorDestroy,
                 SerializeToXmlFile (''flowmonitor-'' @ to_string_int nWifi @ ''-nodes.xml'')
                   True True]
              @ animation
              @ [CheckForLostPackets, GetFlowStats]
              @ map Cout report))))))"

text \<open>
  The loop of \<open>main\<close>, from \<open>node\<close> on; \<open>engine node\<close> is what the simulator hands
  back in the run with \<open>node\<close> nodes.
\<close>

function main_loop :: "(int \<Rightarrow> Engine) \<Rightarrow> int \<Rightarrow> int \<Rightarrow> int \<Rightarrow> error + event list" where
  "main_loop engine interval maxPackets node =
     (if node \<le> 30 then
        (case RunSimulation (engine node) node interval maxPackets of
           Inl e \<Rightarrow> Inl e
         | Inr run \<Rightarrow>
            (case main_loop engine interval maxPackets (node + 1) of
               Inl e \<Rightarrow> Inl e
             | Inr rest \<Rightarrow>
                Inr (run
                     @ [Cout (Str ''Simulation for ''), Cout (IntV node), Cout (Str '' nodes''),
                        Cout Endl]
                     @ rest)))
      else Inr [])"
  by pat_completeness auto
termination
  by (relation "measure (\<lambda>(engine, interval, maxPackets, node). nat (31 - node))") auto

declare main_loop.simps [simp del]

text \<open>
  \<open>main\<close>: the defaults 10 and 5, each replaced by the value of its command-line
  argument when one is given.
\<close>

definition main :: "(int \<Rightarrow> Engine) \<Rightarrow> int option \<Rightarrow> int option \<Rightarrow> error + event list" where
  "main engine arg_maxPackets arg_interval =
     (let maxPackets = (case arg_maxPackets of None \<Rightarrow> 10 | Some v \<Rightarrow> v);
          interval = (case arg_interval of None \<Rightarrow> 5 | Some v \<Rightarrow> v)
      in main_loop engine interval maxPackets 2)"

text \<open>
  What the properties below read off a list of calls: the creation, execution and
  destruction of simulator state; the files named, by kind.
\<close>

fun lifecycle :: "event list \<Rightarrow> event list" where
  "lifecycle [] = []"
| "lifecycle (NodesCreate n # es) = NodesCreate n # lifecycle es"
| "lifecycle (SimulatorRun # es) = SimulatorRun # lifecycle es"
| "lifecycle (SimulatorDestroy # es) = SimulatorDestroy # lifecycle es"
| "lifecycle (_ # es) = lifecycle es"

fun xml_files :: "event list \<Rightarrow> string list" where
  "xml_files [] = []"
| "xml_files (SerializeToXmlFile f _ _ # es) = f # xml_files es"
| "xml_files (AnimationInterface f # es) = f # xml_files es"
| "xml_files (_ # es) = xml_files es"

fun pcap_files :: "event list \<Rightarrow> string list" where
  "pcap_files [] = []"
| "pcap_files (EnablePcap f _ # es) = f # pcap_files es"
| "pcap_files (_ # es) = pcap_files es"

section \<open>Properties\<close>

subsection \<open>The traffic pattern\<close>

lemma Get_in_range:
  "k < length nodes \<Longrightarrow> length nodes \<le> nat INT_MAX \<Longrightarrow> Get nodes (int k) = Inr (nodes ! k)"
  by (simp add: Get_def INT_MAX_def)

lemma SetupApplications_clients_from:
  assumes "0 \<le> i" "i \<le> nWifi" "nWifi \<le> INT_MAX" "length nodes = nat nWifi"
  shows "SetupApplications_clients nodes nWifi interval maxPackets i =
           Inr (map (\<lambda>k. client_app (nodes ! ((k + 1) mod nat nWifi)) (nodes ! k) interval maxPackets)
                  [nat i..<nat nWifi])"
  using assms
proof (induction nodes nWifi interval maxPackets i rule: SetupApplications_clients.induct)
  case (1 nodes nWifi interval maxPackets i)
  show ?case
  proof (cases "i < nWifi")
    case False
    with "1.prems" show ?thesis
      by (simp add: SetupApplications_clients.simps)
  next
    case True
    have len: "length nodes \<le> nat INT_MAX"
      using "1.prems" by simp
    have sm: "(i + 1) smod nWifi = int ((nat i + 1) mod nat nWifi)"
      using True "1.prems"(1) by (simp add: smod_int_alt_def zmod_int nat_add_distrib sgn_if add.commute)
    have g1: "Get nodes ((i + 1) smod nWifi) = Inr (nodes ! ((nat i + 1) mod nat nWifi))"
      unfolding sm using True "1.prems" len by (intro Get_in_range) auto
    have g2: "Get nodes i = Inr (nodes ! nat i)"
      using Get_in_range [of "nat i" nodes] True "1.prems" len by simp
    have ih: "SetupApplications_clients nodes nWifi interval maxPackets (i + 1) =
           Inr (map (\<lambda>k. client_app (nodes ! ((k + 1) mod nat nWifi)) (nodes ! k) interval maxPackets)
                  [nat (i + 1)..<nat nWifi])"
      using "1.IH" [OF True g1 g2] True "1.prems" by simp
    have up: "[nat i..<nat nWifi] = nat i # [nat (i + 1)..<nat nWifi]"
      using True "1.prems"(1) by (simp add: upt_conv_Cons nat_add_distrib)
    show ?thesis
      by (subst SetupApplications_clients.simps) (simp add: True g1 g2 ih up)
  qed
qed

lemma SetupApplications_ok:
  assumes "1 \<le> nWifi" "nWifi \<le> INT_MAX" "length nodes = nat nWifi"
  shows "SetupApplications nodes nWifi interval maxPackets =
           Inr (map (\<lambda>i. client_app (nodes ! ((i + 1) mod nat nWifi)) (nodes ! i) interval maxPackets)
                  [0..<nat nWifi]
                @ [server_app (nodes ! (nat nWifi - 1))])"
proof -
  have c: "SetupApplications_clients nodes nWifi interval maxPackets 0 =
           Inr (map (\<lambda>k. client_app (nodes ! ((k + 1) mod nat nWifi)) (nodes ! k) interval maxPackets)
                  [0..<nat nWifi])"
    using SetupApplications_clients_from [of 0 nWifi nodes interval maxPackets] assms by simp
  have "Get nodes (int (nat nWifi - 1)) = Inr (nodes ! (nat nWifi - 1))"
    using assms by (intro Get_in_range) auto
  moreover have "int (nat nWifi - 1) = nWifi - 1"
    using assms by simp
  ultimately have g: "Get nodes (nWifi - 1) = Inr (nodes ! (nat nWifi - 1))"
    by simp
  show ?thesis
    using assms(1) by (simp add: SetupApplications_def c g INT_MAX_def)
qed

lemma SetupApplications_installed:
  assumes "1 \<le> nWifi" "nWifi \<le> INT_MAX" "length nodes = nat nWifi"
  shows "SetupApplications nodes nWifi interval maxPackets =
           Inr (map (\<lambda>i. \<lparr>on_node = nodes ! i,
                           application =
                             UdpEchoClient (local_address (nodes ! ((i + 1) mod nat nWifi))) 443
                               (word_of_int maxPackets) (NanoSeconds (interval * 1000000)) 512,
                           start_time = NanoSeconds 1000000000,
                           stop_time = NanoSeconds 25000000000\<rparr>)
                  [0..<nat nWifi]
                @ [\<lparr>on_node = nodes ! (nat nWifi - 1), application = UdpEchoServer 443,
                    start_time = NanoSeconds 1000000000,
                    stop_time = NanoSeconds 25000000000\<rparr>])"
  using SetupApplications_ok [OF assms, of interval maxPackets]
  by (simp add: client_app_def server_app_def kPort_def kPacketSize_def MilliSeconds_def
      kSimulationStartTime_def kSimulationStopTime_def Seconds_def)

text \<open>
  C4. For every node count \<open>N \<ge> 2\<close> (an \<open>int\<close>) and a container of \<open>N\<close> nodes,
  \<open>SetupApplications\<close> installs exactly \<open>N\<close> echo clients followed by exactly one echo
  server. The \<open>i\<close>-th client runs on node \<open>i\<close>; its remote address is the address of
  node \<open>(i + 1) mod N\<close> (so client \<open>N - 1\<close> targets node \<open>0\<close>) and its remote port
  443; it carries the given MaxPackets and Interval (in milliseconds) and the packet
  size 512. The server runs on node \<open>N - 1\<close> and listens on port 443, whatever the
  clients address. Every application starts at 1 s and stops at 25 s.
\<close>

theorem SetupApplications_ring:
  assumes "2 \<le> nWifi" "nWifi \<le> INT_MAX" "length nodes = nat nWifi"
  shows "SetupApplications nodes nWifi interval maxPackets =
           Inr (map (\<lambda>i. \<lparr>on_node = nodes ! i,
                           application =
                             UdpEchoClient (local_address (nodes ! ((i + 1) mod nat nWifi))) 443
                               (word_of_int maxPackets) (NanoSeconds (interval * 1000000)) 512,
                           start_time = NanoSeconds 1000000000,
                           stop_time = NanoSeconds 25000000000\<rparr>)
                  [0..<nat nWifi]
                @ [\<lparr>on_node = nodes ! (nat nWifi - 1), application = UdpEchoServer 443,
                    start_time = NanoSeconds 1000000000,
                    stop_time = NanoSeconds 25000000000\<rparr>])"
  using assms by (intro SetupApplications_installed) auto

theorem SetupApplications_ring_witness:
  "(2::int) \<le> 4 \<and> (4::int) \<le> 2147483647 \<and> INT_MAX = 2147483647
   \<and> length [\<lparr>node_index = 0, local_address = 0x0A010101\<rparr>,
              \<lparr>node_index = 1, local_address = 0x0A010102\<rparr>,
              \<lparr>node_index = 2, local_address = 0x0A010103\<rparr>,
              \<lparr>node_index = 3, local_address = 0x0A010104\<rparr>] = nat 4
   \<and> SetupApplications
        [\<lparr>node_index = 0, local_address = 0x0A010101\<rparr>,
         \<lparr>node_index = 1, local_address = 0x0A010102\<rparr>,
         \<lparr>node_index = 2, local_address = 0x0A010103\<rparr>,
         \<lparr>node_index = 3, local_address = 0x0A010104\<rparr>] 4 5 10 =
      Inr [\<lparr>on_node = \<lparr>node_index = 0, local_address = 0x0A010101\<rparr>,
            application = UdpEchoClient 0x0A010102 443 10 (NanoSeconds 5000000) 512,
            start_time = NanoSeconds 1000000000, stop_time = NanoSeconds 25000000000\<rparr>,
           \<lparr>on_node = \<lparr>node_index = 1, local_address = 0x0A010102\<rparr>,
            application = UdpEchoClient 0x0A010103 443 10 (NanoSeconds 5000000) 512,
            start_time = NanoSeconds 1000000000, stop_time = NanoSeconds 25000000000\<rparr>,
           \<lparr>on_node = \<lparr>node_index = 2, local_address = 0x0A010103\<rparr>,
            application = UdpEchoClient 0x0A010104 443 10 (NanoSeconds 5000000) 512,
            start_time = NanoSeconds 1000000000, stop_time = NanoSeconds 25000000000\<rparr>,
           \<lparr>on_node = \<lparr>node_index = 3, local_address = 0x0A010104\<rparr>,
            application = UdpEchoClient 0x0A010101 443 10 (NanoSeconds 5000000) 512,
            start_time = NanoSeconds 1000000000, stop_time = NanoSeconds 25000000000\<rparr>,
           \<lparr>on_node = \<lparr>node_index = 3, local_address = 0x0A010104\<rparr>,
            application = UdpEchoServer 443,
            start_time = NanoSeconds 1000000000, stop_time = NanoSeconds 25000000000\<rparr>]"
  using SetupApplications_ring [of 4
      "[\<lparr>node_index = 0, local_address = 0x0A010101\<rparr>,
        \<lparr>node_index = 1, local_address = 0x0A010102\<rparr>,
        \<lparr>node_index = 2, local_address = 0x0A010103\<rparr>,
        \<lparr>node_index = 3, local_address = 0x0A010104\<rparr>]" 5 10]
  by (simp add: INT_MAX_def upt_conv_Cons)

text \<open>
  C5 as stated fails: with one node the call does not fail. It returns normally,
  having installed a client on node 0 whose remote address 10.1.1.1 is node 0's own,
  and the server on node 0.
\<close>

theorem SetupApplications_single_node_counterexample:
  "SetupApplications [\<lparr>node_index = 0, local_address = 0x0A010101\<rparr>] 1 5 10 =
     Inr [\<lparr>on_node = \<lparr>node_index = 0, local_address = 0x0A010101\<rparr>,
           application = UdpEchoClient 0x0A010101 443 10 (NanoSeconds 5000000) 512,
           start_time = NanoSeconds 1000000000, stop_time = NanoSeconds 25000000000\<rparr>,
          \<lparr>on_node = \<lparr>node_index = 0, local_address = 0x0A010101\<rparr>,
           application = UdpEchoServer 443,
           start_time = NanoSeconds 1000000000, stop_time = NanoSeconds 25000000000\<rparr>]"
  using SetupApplications_installed [of 1 "[\<lparr>node_index = 0, local_address = 0x0A010101\<rparr>]" 5 10]
  by (simp add: INT_MAX_def)

text \<open>
  C5, amended. Building the traffic pattern with \<open>N = 1\<close> does not fail: on a
  container of the single node \<open>nd\<close>, \<open>SetupApplications\<close> returns normally, having
  installed exactly one echo client, on \<open>nd\<close>, whose remote address is the address of
  \<open>nd\<close> itself (port 443), followed by the echo server on \<open>nd\<close> (port 443).
\<close>

theorem SetupApplications_single_node:
  "SetupApplications [nd] 1 interval maxPackets =
     Inr [\<lparr>on_node = nd,
           application = UdpEchoClient (local_address nd) 443 (word_of_int maxPackets)
                           (NanoSeconds (interval * 1000000)) 512,
           start_time = NanoSeconds 1000000000, stop_time = NanoSeconds 25000000000\<rparr>,
          \<lparr>on_node = nd, application = UdpEchoServer 443,
           start_time = NanoSeconds 1000000000, stop_time = NanoSeconds 25000000000\<rparr>]"
  using SetupApplications_installed [of 1 "[nd]" interval maxPackets]
  by (simp add: INT_MAX_def)


subsection \<open>Rounding to binary64\<close>

lemma ilog2_bounds:
  assumes "0 < q"
  shows "2 powi ilog2 q \<le> q" and "q < 2 powi (ilog2 q + 1)"
proof -
  have "2 powi ilog2 q \<le> q \<and> q < 2 powi (ilog2 q + 1)"
  proof (cases "1 \<le> q")
    case True
    define n where "n = \<lfloor>q\<rfloor>"
    have n: "1 \<le> n" "of_int n \<le> q" "q < of_int (n + 1)"
      using True floor_correct [of q] by (auto simp: n_def le_floor_iff)
    have b: "2 ^ nat (bitlen n - 1) \<le> n" "n < 2 ^ nat (bitlen n)"
      using bitlen_bounds [of n] n(1) by auto
    have b1: "1 \<le> bitlen n"
      using n(1) bitlen_nonneg [of n] bitlen_eq_zero_iff [of n] by linarith
    have k: "ilog2 q = bitlen n - 1"
      using True by (simp add: ilog2_def n_def)
    have "(2::rat) powi (bitlen n - 1) = of_int (2 ^ nat (bitlen n - 1))"
      using b1 by (simp add: power_int_nonneg_exp)
    also have "\<dots> \<le> of_int n"
      using b(1) by (simp only: of_int_le_iff)
    finally have lo: "2 powi (bitlen n - 1) \<le> q"
      using n(2) by simp
    have "q < of_int (n + 1)" by (fact n(3))
    also have "of_int (n + 1) \<le> (of_int (2 ^ nat (bitlen n)) :: rat)"
      using b(2) by (simp only: of_int_le_iff)
    also have "\<dots> = 2 powi (bitlen n)"
      using b1 by (simp add: power_int_nonneg_exp)
    finally have hi: "q < 2 powi (bitlen n)" .
    show ?thesis using lo hi by (simp add: k)
  next
    case False
    define x where "x = 1 / q"
    define m where "m = \<lceil>x\<rceil> - 1"
    have x1: "1 < x" using False assms by (simp add: x_def)
    have m: "1 \<le> m" "of_int m < x" "x \<le> of_int (m + 1)"
      using x1 ceiling_correct [of x] by (auto simp: m_def less_ceiling_iff)
    have b: "2 ^ nat (bitlen m - 1) \<le> m" "m < 2 ^ nat (bitlen m)"
      using bitlen_bounds [of m] m(1) by auto
    have b1: "1 \<le> bitlen m"
      using m(1) bitlen_nonneg [of m] bitlen_eq_zero_iff [of m] by linarith
    have k: "ilog2 q = - bitlen m"
      using False by (simp add: ilog2_def m_def x_def)
    have "x \<le> of_int (m + 1)" by (fact m(3))
    also have "of_int (m + 1) \<le> (of_int (2 ^ nat (bitlen m)) :: rat)"
      using b(2) by (simp only: of_int_le_iff)
    also have "\<dots> = 2 powi (bitlen m)"
      using b1 by (simp add: power_int_nonneg_exp)
    finally have "1 / q \<le> 2 powi bitlen m" by (simp add: x_def)
    then have "1 \<le> 2 powi bitlen m * q"
      using assms by (simp add: field_simps)
    then have lo: "2 powi (- bitlen m) \<le> q"
      by (simp add: power_int_minus field_simps)
    define P where "P = (2::rat) powi (bitlen m - 1)"
    have P: "0 < P" by (simp add: P_def)
    have "P = of_int (2 ^ nat (bitlen m - 1))"
      using b1 by (simp add: P_def power_int_nonneg_exp)
    also have "\<dots> \<le> of_int m"
      using b(1) by (simp only: of_int_le_iff)
    also have "\<dots> < x" by (fact m(2))
    finally have "P < 1 / q" by (simp add: x_def)
    then have "P * q < 1"
      using assms by (simp add: field_simps)
    then have "q < inverse P"
      using P by (simp add: field_simps)
    moreover have "(2::rat) powi (- bitlen m + 1) = inverse P"
      unfolding P_def using power_int_minus [of "2::rat" "bitlen m - 1"] by simp
    ultimately have hi: "q < 2 powi (- bitlen m + 1)"
      by simp
    show ?thesis using lo hi by (simp add: k)
  qed
  then show "2 powi ilog2 q \<le> q" and "q < 2 powi (ilog2 q + 1)" by simp_all
qed

lemma ilog2_eqI:
  assumes "2 powi e \<le> q" "q < 2 powi (e + 1)"
  shows "ilog2 q = e"
proof -
  have "(0::rat) < 2 powi e"
    by simp
  with assms(1) have q: "0 < q"
    by linarith
  note b = ilog2_bounds [OF q]
  have "\<not> e < ilog2 q"
  proof
    assume "e < ilog2 q"
    then have "(2::rat) powi (e + 1) \<le> 2 powi ilog2 q"
      by (intro power_int_increasing) auto
    with b(1) assms(2) show False by simp
  qed
  moreover have "\<not> ilog2 q < e"
  proof
    assume "ilog2 q < e"
    then have "(2::rat) powi (ilog2 q + 1) \<le> 2 powi e"
      by (intro power_int_increasing) auto
    with b(2) assms(1) show False by simp
  qed
  ultimately show ?thesis by simp
qed

lemma round_even_down: "x - of_int \<lfloor>x\<rfloor> < 1 / 2 \<Longrightarrow> round_even x = \<lfloor>x\<rfloor>"
  by (simp add: round_even_def Let_def)

lemma round_even_up: "1 / 2 < x - of_int \<lfloor>x\<rfloor> \<Longrightarrow> round_even x = \<lfloor>x\<rfloor> + 1"
  by (simp add: round_even_def Let_def)

lemma round_even_eqI:
  assumes "\<bar>x - of_int m\<bar> < 1 / 2"
  shows "round_even x = m"
proof -
  have f: "\<lfloor>x\<rfloor> = m \<or> \<lfloor>x\<rfloor> = m - 1"
    using assms by (auto simp: floor_eq_iff abs_less_iff)
  then show ?thesis
  proof
    assume fl: "\<lfloor>x\<rfloor> = m"
    have "x - of_int \<lfloor>x\<rfloor> < 1 / 2"
      unfolding fl using assms by (simp only: abs_less_iff)
    from round_even_down [OF this] show ?thesis
      by (simp only: fl)
  next
    assume fl: "\<lfloor>x\<rfloor> = m - 1"
    have "- (1 / 2) < x - of_int m"
      using assms by (simp only: abs_less_iff) linarith
    then have "1 / 2 < x - of_int \<lfloor>x\<rfloor>"
      unfolding fl by simp
    from round_even_up [OF this] show ?thesis
      by (simp only: fl)
  qed
qed

lemma round_even_of_int [simp]: "round_even (of_int m) = m"
  by (rule round_even_eqI) simp

lemma round_even_error: "\<bar>of_int (round_even x) - x\<bar> \<le> 1 / 2"
proof -
  have "of_int \<lfloor>x\<rfloor> \<le> x" "x < of_int \<lfloor>x\<rfloor> + 1"
    by linarith+
  then show ?thesis
    by (auto simp: round_even_def Let_def abs_le_iff)
qed

lemma round_even_mono: "x \<le> of_int m \<Longrightarrow> round_even x \<le> m"
proof -
  assume a: "x \<le> of_int m"
  then have f: "\<lfloor>x\<rfloor> \<le> m" by (simp add: floor_le_iff) 
  show ?thesis
  proof (cases "\<lfloor>x\<rfloor> = m")
    case True
    then have "x = of_int m" using a by (metis of_int_floor_le order_antisym)
    then show ?thesis by simp
  next
    case False
    with f have "\<lfloor>x\<rfloor> + 1 \<le> m" by simp
    then show ?thesis by (auto simp: round_even_def Let_def)
  qed
qed

lemma round_even_nonneg: "0 \<le> x \<Longrightarrow> 0 \<le> round_even x"
  by (auto simp: round_even_def Let_def)

lemma round_binary64_pos_unfold:
  "0 < q \<Longrightarrow> round_binary64 q =
     of_int (round_even (q / 2 powi ulp_exponent q)) * 2 powi ulp_exponent q"
  by (simp add: round_binary64_def)

lemma round_binary64_zero [simp]: "round_binary64 0 = 0"
  by (simp add: round_binary64_def)

lemma round_binary64_eqI:
  assumes "2 powi e \<le> q" "q < 2 powi (e + 1)" "- 1022 \<le> e"
    and "\<bar>q / 2 powi (e - 52) - of_int m\<bar> < 1 / 2"
  shows "round_binary64 q = of_int m * 2 powi (e - 52)"
proof -
  have "(0::rat) < 2 powi e" by simp
  with assms(1) have q: "0 < q" by linarith
  have u: "ulp_exponent q = e - 52"
    using ilog2_eqI [OF assms(1,2)] assms(3) by (simp add: ulp_exponent_def)
  show ?thesis
    by (simp only: round_binary64_pos_unfold [OF q] u round_even_eqI [OF assms(4)])
qed

lemma ulp_exponent_le:
  assumes "0 < q" "q < 2 powi (j + 53)" "- 1074 \<le> j"
  shows "ulp_exponent q \<le> j"
proof -
  have "\<not> j + 53 \<le> ilog2 q"
  proof
    assume "j + 53 \<le> ilog2 q"
    then have "(2::rat) powi (j + 53) \<le> 2 powi ilog2 q"
      by (intro power_int_increasing) auto
    with ilog2_bounds(1) [OF assms(1)] assms(2) show False by simp
  qed
  with assms(3) show ?thesis by (simp add: ulp_exponent_def)
qed

lemma ulp_exponent_ge: "- 1074 \<le> ulp_exponent q"
  by (simp add: ulp_exponent_def)

lemma power_int_diff_nat:
  "u \<le> e \<Longrightarrow> (2::rat) powi e / 2 powi u = of_int (2 ^ nat (e - u))"
proof -
  assume "u \<le> e"
  then have "(2::rat) powi (e - u) = 2 ^ nat (e - u)"
    by (simp add: power_int_nonneg_exp)
  moreover have "(2::rat) powi (e - u) = 2 powi e / 2 powi u"
    by (simp add: power_int_diff)
  ultimately show ?thesis by simp
qed

lemma round_binary64_exact:
  assumes "0 \<le> m" "m < 2 ^ 53" "- 1074 \<le> e"
  shows "round_binary64 (of_int m * 2 powi e) = of_int m * 2 powi e"
proof (cases "m = 0")
  case True
  then show ?thesis by simp
next
  case False
  define q :: rat where "q = of_int m * 2 powi e"
  have m: "0 < m" using assms(1) False by simp
  have q: "0 < q" using m by (simp add: q_def)
  have "of_int m < (2::rat) ^ 53"
    using assms(2) by (metis of_int_less_iff of_int_numeral of_int_power)
  then have "q < 2 ^ 53 * 2 powi e"
    unfolding q_def by (intro mult_strict_right_mono) auto
  also have "\<dots> = 2 powi (e + 53)"
    by (simp add: power_int_add)
  finally have u: "ulp_exponent q \<le> e"
    using ulp_exponent_le [OF q _ assms(3)] by simp
  have "q / 2 powi ulp_exponent q = of_int m * (2 powi e / 2 powi ulp_exponent q)"
    by (simp add: q_def)
  also have "\<dots> = of_int (m * 2 ^ nat (e - ulp_exponent q))"
    by (simp add: power_int_diff_nat [OF u])
  finally have "round_even (q / 2 powi ulp_exponent q) = m * 2 ^ nat (e - ulp_exponent q)"
    by (simp only: round_even_of_int)
  then have "round_binary64 q = of_int m * (of_int (2 ^ nat (e - ulp_exponent q)) * 2 powi ulp_exponent q)"
    by (simp add: round_binary64_pos_unfold [OF q])
  also have "of_int (2 ^ nat (e - ulp_exponent q)) * 2 powi ulp_exponent q = (2::rat) powi e"
    using power_int_diff_nat [OF u, symmetric] by simp
  finally show ?thesis by (simp add: q_def)
qed

lemma round_binary64_of_nat:
  "n < 2 ^ 53 \<Longrightarrow> round_binary64 (of_nat n) = of_nat n"
  using round_binary64_exact [of "int n" 0] by simp

lemma round_binary64_form:
  assumes "0 < q"
  shows "\<exists>n. round_binary64 q = of_int n * 2 powi ulp_exponent q \<and> 0 \<le> n \<and> n \<le> 2 ^ 53"
proof -
  define u where "u = ulp_exponent q"
  define n where "n = round_even (q / 2 powi u)"
  have k: "ilog2 q + 1 - u \<le> 53"
    by (simp add: u_def ulp_exponent_def)
  have "q / 2 powi u < 2 powi (ilog2 q + 1) / 2 powi u"
    using ilog2_bounds(2) [OF assms] by (intro divide_strict_right_mono) auto
  also have "\<dots> = 2 powi (ilog2 q + 1 - u)"
    by (simp add: power_int_diff)
  also have "\<dots> \<le> 2 powi 53"
    using k by (intro power_int_increasing) auto
  also have "\<dots> = of_int (2 ^ 53)"
    by simp
  finally have "n \<le> 2 ^ 53"
    unfolding n_def by (intro round_even_mono) simp
  moreover have "0 \<le> n"
    unfolding n_def using assms by (intro round_even_nonneg) simp
  moreover have "round_binary64 q = of_int n * 2 powi u"
    by (simp add: round_binary64_pos_unfold [OF assms] n_def u_def)
  ultimately show ?thesis unfolding u_def by blast
qed

lemma round_binary64_scale:
  assumes "0 \<le> q" "0 \<le> j"
  shows "round_binary64 (round_binary64 q * 2 powi j) = round_binary64 q * 2 powi j"
proof (cases "q = 0")
  case True
  then show ?thesis by simp
next
  case False
  with assms have q: "0 < q" by simp
  obtain n where n: "round_binary64 q = of_int n * 2 powi ulp_exponent q" "0 \<le> n" "n \<le> 2 ^ 53"
    using round_binary64_form [OF q] by blast
  define u where "u = ulp_exponent q"
  have u: "- 1074 \<le> u" by (simp add: u_def ulp_exponent_ge)
  show ?thesis
  proof (cases "n = 2 ^ 53")
    case True
    have "round_binary64 q * 2 powi j = of_int 1 * 2 powi (u + 53 + j)"
      by (simp add: n(1) True u_def power_int_add)
    moreover have "round_binary64 (of_int 1 * 2 powi (u + 53 + j)) = of_int 1 * 2 powi (u + 53 + j)"
      using u assms(2) by (intro round_binary64_exact) auto
    ultimately show ?thesis by simp
  next
    case False
    have "round_binary64 q * 2 powi j = of_int n * 2 powi (u + j)"
      by (simp add: n(1) u_def power_int_add)
    moreover have "round_binary64 (of_int n * 2 powi (u + j)) = of_int n * 2 powi (u + j)"
      using u assms(2) n(2,3) False by (intro round_binary64_exact) auto
    ultimately show ?thesis by simp
  qed
qed

lemma round_binary64_idem: "0 \<le> q \<Longrightarrow> round_binary64 (round_binary64 q) = round_binary64 q"
  using round_binary64_scale [of q 0] by simp

lemma round_binary64_nonneg: "0 \<le> q \<Longrightarrow> 0 \<le> round_binary64 q"
  by (auto simp: round_binary64_def intro!: mult_nonneg_nonneg round_even_nonneg)

lemma round_binary64_le_power:
  assumes "0 \<le> q" "q \<le> 2 powi j" "- 1074 \<le> j"
  shows "round_binary64 q \<le> 2 powi j"
proof (cases "q = 0")
  case True
  then show ?thesis by simp
next
  case False
  with assms have q: "0 < q" by simp
  define u where "u = ulp_exponent q"
  have "\<not> j < ilog2 q"
  proof
    assume "j < ilog2 q"
    then have "(2::rat) powi (j + 1) \<le> 2 powi ilog2 q"
      by (intro power_int_increasing) auto
    moreover have "(2::rat) powi j < 2 powi (j + 1)"
      by (intro power_int_strict_increasing) auto
    ultimately show False
      using ilog2_bounds(1) [OF q] assms(2) by simp
  qed
  then have u: "u \<le> j"
    using assms(3) by (simp add: u_def ulp_exponent_def)
  have "q / 2 powi u \<le> 2 powi j / 2 powi u"
    using assms(2) by (intro divide_right_mono) auto
  also have "\<dots> = of_int (2 ^ nat (j - u))"
    by (rule power_int_diff_nat [OF u])
  finally have "round_even (q / 2 powi u) \<le> 2 ^ nat (j - u)"
    by (rule round_even_mono)
  then have "(of_int (round_even (q / 2 powi u)) :: rat) \<le> of_int (2 ^ nat (j - u))"
    by (simp only: of_int_le_iff)
  then have "of_int (round_even (q / 2 powi u)) * 2 powi u \<le> of_int (2 ^ nat (j - u)) * (2::rat) powi u"
    by (intro mult_right_mono) auto
  also have "of_int (2 ^ nat (j - u)) * (2::rat) powi u = 2 powi j"
    using power_int_diff_nat [OF u, symmetric] by simp
  finally show ?thesis
    by (simp add: round_binary64_pos_unfold [OF q] u_def)
qed

lemma round_binary64_error:
  assumes "2 powi (- 1022) \<le> q"
  shows "\<bar>round_binary64 q - q\<bar> \<le> q / 2 ^ 53"
proof -
  have "(0::rat) < 2 powi (- 1022)" by simp
  with assms have q: "0 < q" by linarith
  define u where "u = ulp_exponent q"
  have "\<not> ilog2 q < - 1022"
  proof
    assume "ilog2 q < - 1022"
    then have "(2::rat) powi (ilog2 q + 1) \<le> 2 powi (- 1022)"
      by (intro power_int_increasing) auto
    with ilog2_bounds(2) [OF q] assms show False by simp
  qed
  then have u: "u = ilog2 q - 52"
    by (simp add: u_def ulp_exponent_def)
  define x where "x = q / 2 powi u"
  define R :: rat where "R = of_int (round_even x) * 2 powi u"
  have R: "round_binary64 q = R"
    by (simp add: round_binary64_pos_unfold [OF q] x_def u_def R_def)
  have "\<bar>of_int (round_even x) - x\<bar> \<le> 1 / 2"
    by (rule round_even_error)
  then have "\<bar>of_int (round_even x) - x\<bar> * 2 powi u \<le> 1 / 2 * 2 powi u"
    by (intro mult_right_mono) auto
  moreover have "\<bar>of_int (round_even x) - x\<bar> * 2 powi u = \<bar>R - q\<bar>"
  proof -
    have "\<bar>of_int (round_even x) - x\<bar> * 2 powi u = \<bar>(of_int (round_even x) - x) * 2 powi u\<bar>"
      by (simp add: abs_mult)
    also have "(of_int (round_even x) - x) * 2 powi u = R - q"
      by (simp add: x_def R_def algebra_simps)
    finally show ?thesis .
  qed
  ultimately have e1: "\<bar>R - q\<bar> \<le> 1 / 2 * 2 powi u"
    by simp
  have e2: "1 / 2 * (2::rat) powi u = 2 powi ilog2 q / 2 ^ 53"
  proof -
    have "(2::rat) powi u = 2 powi ilog2 q / 2 powi 52"
      unfolding u by (simp add: power_int_diff)
    then show ?thesis by simp
  qed
  have e3: "(2::rat) powi ilog2 q / 2 ^ 53 \<le> q / 2 ^ 53"
    using ilog2_bounds(1) [OF q] by (intro divide_right_mono) auto
  show ?thesis
    unfolding R using e1 e2 e3 by linarith
qed

lemma round_even_ge: "of_int m \<le> x \<Longrightarrow> m \<le> round_even x"
proof -
  assume "of_int m \<le> x"
  then have "m \<le> \<lfloor>x\<rfloor>"
    by (simp add: le_floor_iff)
  then show ?thesis
    by (auto simp: round_even_def Let_def)
qed

lemma round_binary64_ge_power:
  assumes "2 powi j \<le> q" "- 1074 \<le> j"
  shows "2 powi j \<le> round_binary64 q"
proof -
  have "(0::rat) < 2 powi j" by simp
  with assms(1) have q: "0 < q" by linarith
  define e where "e = ilog2 q"
  define u where "u = ulp_exponent q"
  have "\<not> e < j"
  proof
    assume "e < j"
    then have "(2::rat) powi (e + 1) \<le> 2 powi j"
      by (intro power_int_increasing) auto
    with ilog2_bounds(2) [OF q] assms(1) show False
      by (simp add: e_def)
  qed
  then have je: "j \<le> e" by simp
  have u: "u \<le> e"
    using je assms(2) by (simp add: u_def e_def ulp_exponent_def)
  have "(of_int (2 ^ nat (e - u)) :: rat) = 2 powi e / 2 powi u"
    by (rule power_int_diff_nat [OF u, symmetric])
  also have "\<dots> \<le> q / 2 powi u"
    using ilog2_bounds(1) [OF q] by (intro divide_right_mono) (auto simp: e_def)
  finally have "2 ^ nat (e - u) \<le> round_even (q / 2 powi u)"
    by (rule round_even_ge)
  then have "(of_int (2 ^ nat (e - u)) :: rat) \<le> of_int (round_even (q / 2 powi u))"
    by (simp only: of_int_le_iff)
  then have m1: "of_int (2 ^ nat (e - u)) * (2::rat) powi u
                    \<le> of_int (round_even (q / 2 powi u)) * 2 powi u"
    by (intro mult_right_mono) auto
  have m2: "of_int (2 ^ nat (e - u)) * (2::rat) powi u = 2 powi e"
    using power_int_diff_nat [OF u, symmetric] by simp
  have m3: "(2::rat) powi j \<le> 2 powi e"
    using je by (intro power_int_increasing) auto
  have "(2::rat) powi j \<le> of_int (round_even (q / 2 powi u)) * 2 powi u"
    using m1 m2 m3 by linarith
  then show ?thesis
    by (simp only: round_binary64_pos_unfold [OF q] u_def)
qed


subsection \<open>The flow report\<close>

lemma to_double_finite:
  assumes "0 \<le> q" "q \<le> 2 powi 1023"
  shows "to_double s q = Finite s (round_binary64 q)"
proof -
  have "round_binary64 q \<le> 2 powi 1023"
    using assms by (intro round_binary64_le_power) auto
  also have "\<dots> < (2::rat) ^ 1024"
    by simp
  finally show ?thesis
    by (simp add: to_double_def)
qed

lemma of_nat_le_power_int:
  "n \<le> 2 ^ k \<Longrightarrow> (of_nat n :: rat) \<le> 2 powi int k"
  by (metis of_nat_le_iff of_nat_numeral of_nat_power power_int_of_nat)

lemma power_int_le_1023: "j \<le> 1023 \<Longrightarrow> (2::rat) powi j \<le> 2 powi 1023"
  by (intro power_int_increasing) auto

lemma uint_to_double_round:
  assumes "n \<le> 2 ^ 64"
  shows "uint_to_double n = Finite False (round_binary64 (of_nat n))"
proof -
  have "(of_nat n :: rat) \<le> 2 powi 64"
    using of_nat_le_power_int [OF assms] by simp
  also have "\<dots> \<le> 2 powi 1023"
    by (rule power_int_le_1023) simp
  finally show ?thesis
    unfolding uint_to_double_def by (intro to_double_finite) auto
qed

lemma uint_to_double_exact:
  assumes "n < 2 ^ 53"
  shows "uint_to_double n = Finite False (of_nat n)"
proof -
  have "n \<le> 2 ^ 64"
    using assms by (rule less_le_trans [THEN less_imp_le]) simp
  then show ?thesis
    by (simp add: uint_to_double_round round_binary64_of_nat [OF assms])
qed

lemma simulationTime_seconds:
  "GetSeconds (time_minus kSimulationStopTime kSimulationStartTime) = Finite False 24"
proof -
  have "round_binary64 24 = 24"
    using round_binary64_of_nat [of 24] by simp
  moreover have "(24::rat) \<le> 2 powi 1023"
    using power_int_le_1023 [of 5] by simp
  ultimately have "to_double False 24 = Finite False 24"
    using to_double_finite [of 24 False] by simp
  then show ?thesis
    by (simp add: kSimulationStopTime_def kSimulationStartTime_def Seconds_def)
qed

lemma duration_millis:
  "dmul (GetSeconds (time_minus kSimulationStopTime kSimulationStartTime)) (Finite False 1000)
     = Finite False 24000"
proof -
  have "round_binary64 24000 = 24000"
    using round_binary64_of_nat [of 24000] by simp
  moreover have "(24000::rat) \<le> 2 powi 1023"
    using power_int_le_1023 [of 15] by simp
  ultimately have "to_double False 24000 = Finite False 24000"
    using to_double_finite [of 24000 False] by simp
  then show ?thesis
    by (simp add: simulationTime_seconds)
qed

lemma bitrate_value:
  "bitrate b (time_minus kSimulationStopTime kSimulationStartTime) =
     Finite False (round_binary64 (round_binary64 (of_nat (unat b)) * 8 / (24 * 1000)))"
proof -
  define B :: rat where "B = of_nat (unat b)"
  define r where "r = round_binary64 B"
  have b64: "unat b \<le> 2 ^ 64"
    using unsigned_less [of b, where 'a = nat] by simp
  have B: "0 \<le> B" "B \<le> 2 powi 64"
    unfolding B_def using of_nat_le_power_int [OF b64] by (simp_all only: of_nat_0_le_iff) simp
  have r: "0 \<le> r" "r \<le> 2 powi 64"
    unfolding r_def
    by (rule round_binary64_nonneg [OF B(1)], rule round_binary64_le_power [OF B(1) B(2)]) simp
  have c: "uint_to_double (unat b) = Finite False r"
    by (simp add: uint_to_double_round [OF b64] r_def B_def)
  have "r * 8 \<le> 2 powi 64 * 2 powi 3"
    using r(2) by simp
  also have "\<dots> = 2 powi 67"
    by (simp flip: power_int_add)
  finally have r8: "r * 8 \<le> 2 powi 67" .
  have le: "(2::rat) powi 67 \<le> 2 powi 1023"
    by (rule power_int_le_1023) simp
  have "round_binary64 (r * 2 powi 3) = r * 2 powi 3"
    unfolding r_def using B(1) by (intro round_binary64_scale) auto
  then have s8: "round_binary64 (r * 8) = r * 8"
    by simp
  have m: "dmul (Finite False r) (Finite False 8) = Finite False (r * 8)"
    using to_double_finite [of "r * 8" False] r(1) r8 le by (simp add: s8)
  have "r * 8 / 24000 \<le> r * 8"
    using r(1) by (simp add: field_simps)
  then have d: "to_double False (r * 8 / 24000) = Finite False (round_binary64 (r * 8 / 24000))"
    using r(1) r8 le by (intro to_double_finite) auto
  have n: "(24::rat) * 1000 = 24000"
    by simp
  have "bitrate b (time_minus kSimulationStopTime kSimulationStartTime) =
          ddiv (dmul (Finite False r) (Finite False 8)) (Finite False 24000)"
    by (simp only: bitrate_def c duration_millis)
  also have "\<dots> = to_double False (r * 8 / 24000)"
    unfolding m by simp
  also have "\<dots> = Finite False (round_binary64 (r * 8 / 24000))"
    by (rule d)
  finally show ?thesis
    by (simp only: r_def B_def n)
qed

lemma bitrate_accuracy:
  assumes "0 < n" "n < 2 ^ 53"
  shows "round_binary64 (of_nat n) = of_nat n"
    and "\<bar>round_binary64 (of_nat n * 8 / (24 * 1000)) - of_nat n * 8 / (24 * 1000)\<bar>
           \<le> (of_nat n * 8 / (24 * 1000)) / 2 ^ 53"
proof -
  show "round_binary64 (of_nat n) = of_nat n"
    by (rule round_binary64_of_nat [OF assms(2)])
  have "(1::rat) \<le> of_nat n"
    using assms(1) by simp
  then have "(1::rat) / 3000 \<le> of_nat n * 8 / (24 * 1000)"
    by simp
  moreover have "(2::rat) powi (- 1022) \<le> 2 powi (- 12)"
    by (intro power_int_increasing) auto
  moreover have "(2::rat) powi (- 12) \<le> 1 / 3000"
    by simp
  ultimately have "(2::rat) powi (- 1022) \<le> of_nat n * 8 / (24 * 1000)"
    by linarith
  then show "\<bar>round_binary64 (of_nat n * 8 / (24 * 1000)) - of_nat n * 8 / (24 * 1000)\<bar>
           \<le> (of_nat n * 8 / (24 * 1000)) / 2 ^ 53"
    by (rule round_binary64_error)
qed

lemma GetSeconds_whole:
  assumes "0 \<le> k" "k < 2 ^ 53"
  shows "GetSeconds (NanoSeconds (k * 1000000000)) = Finite False (of_int k)"
proof -
  have r: "round_binary64 (of_int k) = of_int k"
    using round_binary64_exact [of k 0] assms by simp
  have "(of_int k :: rat) \<le> of_int (2 ^ 53)"
    using assms(2) by (simp only: of_int_le_iff)
  also have "\<dots> = 2 powi 53"
    by simp
  also have "\<dots> \<le> 2 powi 1023"
    by (rule power_int_le_1023) simp
  finally have "to_double False (of_int k) = Finite False (of_int k)"
    using to_double_finite [of "of_int k" False] assms(1) r by simp
  moreover have "\<not> k * 1000000000 < 0"
    using assms(1) by simp
  moreover have "\<bar>of_int (k * 1000000000) :: rat\<bar> / 1000000000 = of_int k"
    using assms(1) by simp
  ultimately show ?thesis
    by (simp only: GetSeconds.simps if_False)
qed

lemma bitrate_general:
  assumes "GetSeconds T = Finite False d" "2 powi (- 30) \<le> d" "d \<le> 2 powi 34"
  shows "bitrate b T =
     Finite False (round_binary64 (round_binary64 (of_nat (unat b)) * 8 / round_binary64 (d * 1000)))"
proof -
  define B :: rat where "B = of_nat (unat b)"
  define r where "r = round_binary64 B"
  define D where "D = round_binary64 (d * 1000)"
  have b64: "unat b \<le> 2 ^ 64"
    using unsigned_less [of b, where 'a = nat] by simp
  have B: "0 \<le> B" "B \<le> 2 powi 64"
    unfolding B_def using of_nat_le_power_int [OF b64] by (simp_all only: of_nat_0_le_iff) simp
  have r: "0 \<le> r" "r \<le> 2 powi 64"
    unfolding r_def
    by (rule round_binary64_nonneg [OF B(1)], rule round_binary64_le_power [OF B(1) B(2)]) simp
  have c: "uint_to_double (unat b) = Finite False r"
    by (simp add: uint_to_double_round [OF b64] r_def B_def)
  have "r * 8 \<le> 2 powi 64 * 2 powi 3"
    using r(2) by simp
  also have "\<dots> = 2 powi 67"
    by (simp flip: power_int_add)
  finally have r8: "r * 8 \<le> 2 powi 67" .
  have "round_binary64 (r * 2 powi 3) = r * 2 powi 3"
    unfolding r_def using B(1) by (intro round_binary64_scale) auto
  then have s8: "round_binary64 (r * 8) = r * 8"
    by simp
  have m: "dmul (Finite False r) (Finite False 8) = Finite False (r * 8)"
    using to_double_finite [of "r * 8" False] r(1) r8 power_int_le_1023 [of 67] by (simp add: s8)
  have d0: "0 \<le> d"
    using assms(2) by (rule order_trans [rotated]) simp
  have "(2::rat) powi (- 21) = 2 powi (- 30) * 2 powi 9"
    by (simp flip: power_int_add)
  also have "\<dots> \<le> d * 2 powi 9"
    using assms(2) by (intro mult_right_mono) auto
  also have "\<dots> \<le> d * 1000"
    using d0 by (intro mult_left_mono) auto
  finally have lo: "2 powi (- 21) \<le> d * 1000" .
  have "d * 1000 \<le> 2 powi 34 * 2 powi 10"
    using assms(3) d0 by (intro mult_mono) auto
  also have "\<dots> = 2 powi 44"
    by (simp flip: power_int_add)
  finally have hi: "d * 1000 \<le> 2 powi 44" .
  have dm: "dmul (Finite False d) (Finite False 1000) = Finite False D"
    using to_double_finite [of "d * 1000" False] d0 hi power_int_le_1023 [of 44]
    by (simp add: D_def)
  have D: "2 powi (- 21) \<le> D"
    unfolding D_def using lo by (rule round_binary64_ge_power) simp
  have Dpos: "0 < D"
    using D by (rule less_le_trans [rotated]) simp
  have "1 / D \<le> 1 / 2 powi (- 21)"
    using D by (intro divide_left_mono) auto
  also have "\<dots> = 2 powi 21"
    by (simp add: power_int_minus_divide)
  finally have inv: "1 / D \<le> 2 powi 21" .
  have "r * 8 / D = r * 8 * (1 / D)"
    by simp
  also have "\<dots> \<le> 2 powi 67 * 2 powi 21"
    using r8 inv r(1) Dpos by (intro mult_mono) auto
  also have "\<dots> = 2 powi 88"
    by (simp flip: power_int_add)
  finally have q: "r * 8 / D \<le> 2 powi 88" .
  have q0: "0 \<le> r * 8 / D"
    using r(1) Dpos by simp
  have dv: "to_double False (r * 8 / D) = Finite False (round_binary64 (r * 8 / D))"
    using q0 q power_int_le_1023 [of 88] by (intro to_double_finite) auto
  have "bitrate b T = ddiv (dmul (Finite False r) (Finite False 8)) (Finite False D)"
    by (simp only: bitrate_def c assms(1) dm)
  also have "\<dots> = to_double False (r * 8 / D)"
    unfolding m using Dpos by simp
  also have "\<dots> = Finite False (round_binary64 (r * 8 / D))"
    by (rule dv)
  finally show ?thesis
    by (simp only: r_def B_def D_def)
qed

lemma bitrate_whole_seconds:
  assumes "1 \<le> k" "k \<le> 9223372036"
  shows "bitrate b (NanoSeconds (k * 1000000000)) =
     Finite False (round_binary64 (round_binary64 (of_nat (unat b)) * 8 / (of_int k * 1000)))"
proof -
  have g: "GetSeconds (NanoSeconds (k * 1000000000)) = Finite False (of_int k)"
    using assms by (intro GetSeconds_whole) auto
  have lo: "(2::rat) powi (- 30) \<le> of_int k"
  proof -
    have "(2::rat) powi (- 30) \<le> 2 powi 0"
      by (intro power_int_increasing) auto
    also have "\<dots> \<le> of_int k"
      using assms(1) by simp
    finally show ?thesis .
  qed
  have "(of_int k :: rat) \<le> of_int (2 ^ 34)"
    using assms(2) by (simp only: of_int_le_iff) simp
  then have hi: "(of_int k :: rat) \<le> 2 powi 34"
    by simp
  have "round_binary64 (of_int (k * 1000) * 2 powi 0) = of_int (k * 1000) * 2 powi 0"
    using assms by (intro round_binary64_exact) auto
  then have e: "round_binary64 (of_int k * 1000) = of_int k * 1000"
    by simp
  show ?thesis
    using bitrate_general [OF g lo hi, of b] by (simp only: e)
qed

lemma bitrate_positive:
  assumes "0 < b"
  shows "0 < round_binary64 (round_binary64 (of_nat (unat b)) * 8 / (24 * 1000))"
proof -
  have "0 < unat b"
    using assms by (simp add: word_less_nat_alt)
  then have "1 \<le> unat b"
    by simp
  then have "(of_nat 1 :: rat) \<le> of_nat (unat b)"
    by (simp only: of_nat_le_iff)
  then have "(2::rat) powi 0 \<le> of_nat (unat b)"
    by (simp only: power_int_0_right of_nat_1)
  then have "(2::rat) powi 0 \<le> round_binary64 (of_nat (unat b))"
    by (rule round_binary64_ge_power) simp
  then have "(1::rat) \<le> round_binary64 (of_nat (unat b))"
    by (simp only: power_int_0_right)
  then have "(1::rat) / 3000 \<le> round_binary64 (of_nat (unat b)) * 8 / (24 * 1000)"
    by simp
  moreover have "(2::rat) powi (- 12) \<le> 1 / 3000"
    by simp
  ultimately have "(2::rat) powi (- 12) \<le> round_binary64 (of_nat (unat b)) * 8 / (24 * 1000)"
    by linarith
  then have "(2::rat) powi (- 12) \<le> round_binary64 (round_binary64 (of_nat (unat b)) * 8 / (24 * 1000))"
    by (rule round_binary64_ge_power) simp
  then show ?thesis
    by (rule less_le_trans [rotated]) simp
qed

lemma lossRatio_value:
  assumes "0 < txPackets s"
  shows "lossRatio s =
     Finite False (round_binary64
       (round_binary64 (of_nat (unat (lostPackets s)) / of_nat (unat (txPackets s))) * 100))"
proof -
  define L :: rat where "L = of_nat (unat (lostPackets s))"
  define X :: rat where "X = of_nat (unat (txPackets s))"
  define r where "r = round_binary64 (L / X)"
  have l32: "unat (lostPackets s) < 2 ^ 32" and x32: "unat (txPackets s) < 2 ^ 32"
    using unsigned_less [of "lostPackets s", where 'a = nat]
      unsigned_less [of "txPackets s", where 'a = nat] by simp_all
  have cl: "uint_to_double (unat (lostPackets s)) = Finite False L"
    unfolding L_def using l32 by (intro uint_to_double_exact) simp
  have cx: "uint_to_double (unat (txPackets s)) = Finite False X"
    unfolding X_def using x32 by (intro uint_to_double_exact) simp
  have "0 < unat (txPackets s)"
    using assms by (simp add: word_less_nat_alt)
  then have "1 \<le> unat (txPackets s)"
    by simp
  then have "(of_nat 1 :: rat) \<le> of_nat (unat (txPackets s))"
    by (simp only: of_nat_le_iff)
  then have X: "1 \<le> X"
    by (simp only: X_def of_nat_1)
  have "(of_nat (unat (lostPackets s)) :: rat) \<le> 2 powi int 32"
    using l32 by (intro of_nat_le_power_int) simp
  then have L: "0 \<le> L" "L \<le> 2 powi 32"
    unfolding L_def by (simp_all only: of_nat_0_le_iff) simp
  have "L / X \<le> L"
    using X L(1) by (simp add: field_simps mult_le_cancel_left1)
  then have q: "0 \<le> L / X" "L / X \<le> 2 powi 32"
    using X L by simp_all
  have le: "(2::rat) powi 32 \<le> 2 powi 1023" "(2::rat) powi 39 \<le> 2 powi 1023"
    by (rule power_int_le_1023, simp)+
  have d: "ddiv (Finite False L) (Finite False X) = Finite False r"
    using X to_double_finite [of "L / X" False] q le(1) by (simp add: r_def)
  have r: "0 \<le> r" "r \<le> 2 powi 32"
    unfolding r_def
    by (rule round_binary64_nonneg [OF q(1)], rule round_binary64_le_power [OF q(1) q(2)]) simp
  have "r * 100 \<le> 2 powi 32 * 2 powi 7"
    using r by (intro mult_mono) auto
  also have "\<dots> = 2 powi 39"
    by (simp flip: power_int_add)
  finally have m: "to_double False (r * 100) = Finite False (round_binary64 (r * 100))"
    using r(1) le(2) by (intro to_double_finite) auto
  have "lossRatio s = dmul (Finite False r) (Finite False 100)"
    by (simp only: lossRatio_def cl cx d)
  also have "\<dots> = to_double False (r * 100)"
    by simp
  also note m
  finally show ?thesis
    by (simp only: r_def L_def X_def)
qed

lemma lossRatio_accuracy:
  fixes l x :: nat
  assumes "0 < x" "x < 2 ^ 32"
  shows "\<bar>round_binary64 (round_binary64 (of_nat l / of_nat x) * 100) - of_nat l / of_nat x * 100\<bar>
           \<le> (of_nat l / of_nat x * 100) / 2 ^ 51"
proof (cases "l = 0")
  case True
  then show ?thesis by simp
next
  case False
  define q :: rat where "q = of_nat l / of_nat x"
  define r where "r = round_binary64 q"
  define p where "p = r * 100"
  have x: "(0::rat) < of_nat x" "(of_nat x :: rat) \<le> 2 ^ 32"
    using assms by (simp_all add: of_nat_le_power_int [of x 32, simplified] less_imp_le)
  have "(1::rat) \<le> of_nat l"
    using False by simp
  then have "1 / of_nat x \<le> q"
    unfolding q_def using x(1) by (intro divide_right_mono) auto
  moreover have "1 / 2 ^ 32 \<le> 1 / (of_nat x :: rat)"
    using x by (intro divide_left_mono) auto
  ultimately have qlo: "1 / 2 ^ 32 \<le> q"
    by linarith
  have small: "(2::rat) powi (- 1022) \<le> 2 powi (- 33)"
    by (intro power_int_increasing) auto
  have s33: "(2::rat) powi (- 33) = 1 / 2 ^ 33"
    by (simp add: power_int_minus_divide)
  have "2 powi (- 1022) \<le> q"
    using qlo small s33 by simp
  then have e1: "\<bar>r - q\<bar> \<le> q / 2 ^ 53"
    unfolding r_def by (rule round_binary64_error)
  have q0: "0 \<le> q"
    using qlo by (rule order_trans [rotated]) simp
  have e1': "\<bar>r - q\<bar> \<le> q / 9007199254740992"
    using e1 by simp
  have "q / 2 \<le> r"
    using e1' q0 by linarith
  then have "2 powi (- 1022) \<le> p"
    using qlo small s33 by (simp add: p_def)
  then have "\<bar>round_binary64 p - p\<bar> \<le> p / 2 ^ 53"
    by (rule round_binary64_error)
  then have e2: "\<bar>round_binary64 p - r * 100\<bar> \<le> r * 100 / 9007199254740992"
    by (simp add: p_def)
  have "\<bar>round_binary64 p - q * 100\<bar> \<le> (q * 100) / 2251799813685248"
    using e1' e2 q0 by linarith
  then have "\<bar>round_binary64 p - q * 100\<bar> \<le> (q * 100) / 2 ^ 51"
    by simp
  then show ?thesis
    by (simp only: p_def r_def q_def)
qed

lemma lossRatio_zero_tx:
  assumes "txPackets s = 0"
  shows "lossRatio s = (if lostPackets s = 0 then NaN else Infinite False)"
proof -
  have l32: "unat (lostPackets s) < 2 ^ 53"
    using unsigned_less [of "lostPackets s", where 'a = nat]
    by (rule less_trans) simp
  have cl: "uint_to_double (unat (lostPackets s)) = Finite False (of_nat (unat (lostPackets s)))"
    using l32 by (rule uint_to_double_exact)
  have cx: "uint_to_double (unat (txPackets s)) = Finite False 0"
    using uint_to_double_exact [of 0] by (simp add: assms)
  show ?thesis
    by (simp add: lossRatio_def cl cx unsigned_eq_0_iff)
qed

lemma subscript_again:
  "subscript (snd (subscript m k)) k = (fst (subscript m k), snd (subscript m k))"
  by (simp add: subscript_def split: option.splits)

lemma subscript_other:
  "k' \<noteq> k \<Longrightarrow> fst (subscript (snd (subscript m k)) k') = fst (subscript m k')"
  by (simp add: subscript_def split: option.splits)

lemma word_of_int_neq:
  assumes "0 \<le> i" "i < j" "j \<le> INT_MAX"
  shows "(word_of_int j :: 32 word) \<noteq> word_of_int i"
proof
  assume "(word_of_int j :: 32 word) = word_of_int i"
  then have "uint (word_of_int j :: 32 word) = uint (word_of_int i :: 32 word)"
    by simp
  then have "j mod 2 ^ 32 = i mod 2 ^ 32"
    by (simp add: uint_word_of_int take_bit_eq_mod)
  moreover have "j mod 2 ^ 32 = j" "i mod 2 ^ 32 = i"
    using assms by (simp_all add: INT_MAX_def)
  ultimately show False
    using assms(2) by simp
qed

lemma PrintFlowStatistics_loop_run:
  assumes "0 \<le> i" "nWifi < INT_MAX"
    and "\<forall>j. i \<le> j \<and> j \<le> nWifi \<longrightarrow>
           fst (subscript stats (word_of_int j)) = fst (subscript fs (word_of_int j))"
  shows "PrintFlowStatistics_loop stats T nWifi i =
           Inr (concat (map (\<lambda>j. print_flow j (fst (subscript fs (word_of_int j))) T) [i..nWifi]))"
  using assms
proof (induction stats T nWifi i rule: PrintFlowStatistics_loop.induct)
  case (1 stats T nWifi i)
  show ?case
  proof (cases "i \<le> nWifi")
    case False
    then show ?thesis
      by (simp add: PrintFlowStatistics_loop.simps)
  next
    case True
    define s where "s = fst (subscript stats (word_of_int i))"
    define stats' where "stats' = snd (subscript stats (word_of_int i))"
    have sub: "subscript stats (word_of_int i) = (s, stats')"
      by (simp add: s_def stats'_def)
    have ni: "i \<noteq> INT_MAX"
      using True "1.prems"(2) by simp
    have s: "s = fst (subscript fs (word_of_int i))"
      using "1.prems"(3) True by (simp add: s_def)
    have agree: "\<forall>j. i + 1 \<le> j \<and> j \<le> nWifi \<longrightarrow>
           fst (subscript stats' (word_of_int j)) = fst (subscript fs (word_of_int j))"
    proof (intro allI impI)
      fix j
      assume j: "i + 1 \<le> j \<and> j \<le> nWifi"
      then have "(word_of_int j :: 32 word) \<noteq> word_of_int i"
        using "1.prems"(1,2) by (intro word_of_int_neq) auto
      then have "fst (subscript stats' (word_of_int j)) = fst (subscript stats (word_of_int j))"
        unfolding stats'_def by (rule subscript_other)
      with "1.prems"(3) j show
        "fst (subscript stats' (word_of_int j)) = fst (subscript fs (word_of_int j))"
        by simp
    qed
    have ih: "PrintFlowStatistics_loop stats' T nWifi (i + 1) =
           Inr (concat (map (\<lambda>j. print_flow j (fst (subscript fs (word_of_int j))) T) [i + 1..nWifi]))"
      using "1.IH" [OF True sub [symmetric] ni _ "1.prems"(2) agree] "1.prems"(1) by simp
    have up: "[i..nWifi] = i # [i + 1..nWifi]"
      using True by (rule upto_rec1)
    show ?thesis
      by (subst PrintFlowStatistics_loop.simps) (simp add: True sub ni ih up s)
  qed
qed

lemma PrintFlowStatistics_run:
  assumes "nWifi < INT_MAX"
  shows "PrintFlowStatistics flowStats nWifi =
           Inr (concat (map (\<lambda>i. print_flow i (fst (subscript flowStats (word_of_int i)))
                               (time_minus kSimulationStopTime kSimulationStartTime))
                          [2..nWifi]))"
  unfolding PrintFlowStatistics_def Let_def
  using assms by (intro PrintFlowStatistics_loop_run) auto

lemma ints_printed_append: "ints_printed (xs @ ys) = ints_printed xs @ ints_printed ys"
  by (induction xs rule: ints_printed.induct) auto

lemma ints_printed_print_flow: "ints_printed (print_flow i s T) = [i]"
  by (simp add: print_flow_def tx_bitrate_line_def rx_bitrate_line_def mean_delay_line_def
      loss_ratio_line_def ints_printed_append)

lemma ints_printed_report:
  "ints_printed (concat (map (\<lambda>i. print_flow i (f i) T) is)) = is"
  by (induction "is") (simp_all add: ints_printed_append ints_printed_print_flow)

lemma print_flow_default:
  "print_flow i FlowStats_default T =
     [Str ''======= '', Str ''FlowID: '', IntV i, Str '' ======='', Endl,
      Str ''TX bitrates: '', Str ''None'', Endl,
      Str ''RX bitrate: '', Str ''None'', Endl,
      Str ''TX packets: '', U32 0, Endl,
      Str ''RX packets: '', U32 0, Endl,
      Str ''Mean delay: '', Str ''None'', Endl,
      Str ''Packet loss ratio: '', Dbl NaN, Str ''%'', Endl]"
proof -
  have "lossRatio FlowStats_default = NaN"
    using lossRatio_zero_tx [of FlowStats_default] by (simp add: FlowStats_default_def)
  then show ?thesis
    by (simp add: print_flow_def tx_bitrate_line_def rx_bitrate_line_def mean_delay_line_def
        loss_ratio_line_def) (simp add: FlowStats_default_def)
qed

lemma sdiv_nonneg: "0 \<le> (a::int) \<Longrightarrow> 0 \<le> b \<Longrightarrow> a sdiv b = a div b"
  by (simp add: signed_divide_int_def sgn_if)

lemma round_one_third: "round_binary64 (1 / 3) = 6004799503160661 / 18014398509481984"
proof -
  have "round_binary64 (1 / 3) = of_int 6004799503160661 * 2 powi (- 2 - 52)"
    by (rule round_binary64_eqI) simp_all
  then show ?thesis by simp
qed

lemma round_one_third_times_100:
  "round_binary64 (150119987579016525 / 4503599627370496) = 2345624805922133 / 70368744177664"
proof -
  have "round_binary64 (150119987579016525 / 4503599627370496)
          = of_int 4691249611844266 * 2 powi (5 - 52)"
    by (rule round_binary64_eqI) simp_all
  then show ?thesis by simp
qed

lemma round_100_thirds: "round_binary64 (100 / 3) = 4691249611844267 / 140737488355328"
proof -
  have "round_binary64 (100 / 3) = of_int 4691249611844267 * 2 powi (5 - 52)"
    by (rule round_binary64_eqI) simp_all
  then show ?thesis by simp
qed

text \<open>
  C1 as stated fails: the result is not always \<open>lostPackets / txPackets * 100\<close>
  exactly. For 1 lost of 3 sent the quotient is rounded to binary64, multiplied by 100
  and rounded again, which gives 33.33333333333333 (\<open>2345624805922133 / 2 ^ 46\<close>):
  neither the rational \<open>100 / 3\<close> nor the binary64 value nearest to it
  (\<open>4691249611844267 / 2 ^ 47\<close>, one unit in the last place above).
\<close>

theorem lossRatio_inexact_counterexample:
  "lossRatio \<lparr>txBytes = 1536, rxBytes = 1024, txPackets = 3, rxPackets = 2,
              lostPackets = 1, delaySum = NanoSeconds 2000\<rparr>
     = Finite False (2345624805922133 / 70368744177664)
   \<and> lossRatio \<lparr>txBytes = 1536, rxBytes = 1024, txPackets = 3, rxPackets = 2,
                lostPackets = 1, delaySum = NanoSeconds 2000\<rparr>
     \<noteq> Finite False (1 / 3 * 100)
   \<and> lossRatio \<lparr>txBytes = 1536, rxBytes = 1024, txPackets = 3, rxPackets = 2,
                lostPackets = 1, delaySum = NanoSeconds 2000\<rparr>
     \<noteq> Finite False (round_binary64 (1 / 3 * 100))"
  using lossRatio_value [of "\<lparr>txBytes = 1536, rxBytes = 1024, txPackets = 3, rxPackets = 2,
              lostPackets = 1, delaySum = NanoSeconds 2000\<rparr>"]
  by (simp add: round_one_third round_one_third_times_100 round_100_thirds)

text \<open>
  C1, amended. Every reported flow gets its loss-ratio line, with no test of
  \<open>txPackets\<close>: the line always carries \<open>lossRatio s\<close>, the binary64 evaluation of
  \<open>(double) lostPackets / (double) txPackets * 100.0\<close>. With \<open>txPackets > 0\<close> the
  result is finite: the quotient rounded to nearest, times 100, rounded to nearest; it is
  within a relative \<open>2 ^ -51\<close> of the rational \<open>lostPackets / txPackets * 100\<close>, and
  for 2 lost of 10 sent it is 20 exactly (the witness). With \<open>txPackets = 0\<close> the
  division is done all the same: \<open>0 / 0\<close> is not-a-number, and a positive count over
  0 is plus infinity.
\<close>

theorem lossRatio_unguarded:
  "loss_ratio_line s = [Str ''Packet loss ratio: '', Dbl (lossRatio s), Str ''%'', Endl]
   \<and> (\<exists>pre. print_flow i s T = pre @ loss_ratio_line s)
   \<and> (0 < txPackets s \<longrightarrow>
        lossRatio s =
          Finite False (round_binary64
            (round_binary64 (of_nat (unat (lostPackets s)) / of_nat (unat (txPackets s))) * 100))
        \<and> \<bar>round_binary64
              (round_binary64 (of_nat (unat (lostPackets s)) / of_nat (unat (txPackets s))) * 100)
            - of_nat (unat (lostPackets s)) / of_nat (unat (txPackets s)) * 100\<bar>
          \<le> (of_nat (unat (lostPackets s)) / of_nat (unat (txPackets s)) * 100) / 2 ^ 51)
   \<and> (txPackets s = 0 \<and> lostPackets s = 0 \<longrightarrow> lossRatio s = NaN)
   \<and> (txPackets s = 0 \<and> 0 < lostPackets s \<longrightarrow> lossRatio s = Infinite False)"
proof (intro conjI impI)
  show "loss_ratio_line s = [Str ''Packet loss ratio: '', Dbl (lossRatio s), Str ''%'', Endl]"
    by (simp add: loss_ratio_line_def)
  show "\<exists>pre. print_flow i s T = pre @ loss_ratio_line s"
    unfolding print_flow_def by (metis append.assoc)
next
  assume tx: "0 < txPackets s"
  then show "lossRatio s =
      Finite False (round_binary64
        (round_binary64 (of_nat (unat (lostPackets s)) / of_nat (unat (txPackets s))) * 100))"
    by (rule lossRatio_value)
  have "0 < unat (txPackets s)"
    using tx by (simp add: word_less_nat_alt)
  moreover have "unat (txPackets s) < 2 ^ 32"
    using unsigned_less [of "txPackets s", where 'a = nat] by simp
  ultimately show "\<bar>round_binary64
        (round_binary64 (of_nat (unat (lostPackets s)) / of_nat (unat (txPackets s))) * 100)
      - of_nat (unat (lostPackets s)) / of_nat (unat (txPackets s)) * 100\<bar>
    \<le> (of_nat (unat (lostPackets s)) / of_nat (unat (txPackets s)) * 100) / 2 ^ 51"
    by (rule lossRatio_accuracy)
next
  assume "txPackets s = 0 \<and> lostPackets s = 0"
  then show "lossRatio s = NaN"
    using lossRatio_zero_tx [of s] by simp
next
  assume "txPackets s = 0 \<and> 0 < lostPackets s"
  then show "lossRatio s = Infinite False"
    using lossRatio_zero_tx [of s] by auto
qed

lemma round_one_fifth: "round_binary64 (1 / 5) = 3602879701896397 / 18014398509481984"
proof -
  have "round_binary64 (1 / 5) = of_int 7205759403792794 * 2 powi (- 3 - 52)"
    by (rule round_binary64_eqI) simp_all
  then show ?thesis by simp
qed

lemma round_twenty: "round_binary64 (90071992547409925 / 4503599627370496) = 20"
proof -
  have "round_binary64 (90071992547409925 / 4503599627370496)
          = of_int 5629499534213120 * 2 powi (4 - 52)"
    by (rule round_binary64_eqI) simp_all
  then show ?thesis by simp
qed

theorem lossRatio_unguarded_witness:
  "(0 :: 32 word) < 10
   \<and> lossRatio \<lparr>txBytes = 5120, rxBytes = 4096, txPackets = 10, rxPackets = 8,
                 lostPackets = 2, delaySum = NanoSeconds 8000\<rparr> = Finite False 20
   \<and> lossRatio \<lparr>txBytes = 0, rxBytes = 0, txPackets = 0, rxPackets = 0,
                 lostPackets = 0, delaySum = NanoSeconds 0\<rparr> = NaN
   \<and> (0 :: 32 word) < 3
   \<and> lossRatio \<lparr>txBytes = 0, rxBytes = 0, txPackets = 0, rxPackets = 0,
                 lostPackets = 3, delaySum = NanoSeconds 0\<rparr> = Infinite False"
  using
    lossRatio_unguarded [of "\<lparr>txBytes = 5120, rxBytes = 4096, txPackets = 10, rxPackets = 8,
                 lostPackets = 2, delaySum = NanoSeconds 8000\<rparr>"]
    lossRatio_unguarded [of "\<lparr>txBytes = 0, rxBytes = 0, txPackets = 0, rxPackets = 0,
                 lostPackets = 0, delaySum = NanoSeconds 0\<rparr>"]
    lossRatio_unguarded [of "\<lparr>txBytes = 0, rxBytes = 0, txPackets = 0, rxPackets = 0,
                 lostPackets = 3, delaySum = NanoSeconds 0\<rparr>"]
  by (simp add: round_one_fifth round_twenty)

text \<open>
  C2. Every flow block of the report carries the TX line and then the RX line, and
  \<open>PrintFlowStatistics\<close> prints the blocks with the duration stop time 25 s minus
  start time 1 s, 24 s. Whatever the duration, the TX line carries \<open>None\<close> (and no
  number) when \<open>txBytes = 0\<close> and otherwise the bit rate of \<open>txBytes\<close>; the RX line
  does the same with \<open>rxBytes\<close>. The bit rate of a byte count \<open>b\<close> is the binary64
  evaluation of \<open>(b * 8.0) / (seconds * 1000.0)\<close>: for a duration whose \<open>GetSeconds\<close>
  is \<open>d\<close>, between \<open>2 ^ -30\<close> and \<open>2 ^ 34\<close> (every positive \<open>Time\<close> of 64 bits is in
  that range), it is finite, the rounded quotient of the rounded \<open>b\<close> times 8 by the
  rounded \<open>d * 1000\<close>; a duration of \<open>k\<close> whole seconds has \<open>d = k\<close> and
  \<open>k * 1000\<close> is exact. With the 24 s of the program the bit rate of \<open>b > 0\<close> is
  positive, and for \<open>0 < b < 2 ^ 53\<close> the count converts exactly and the result is
  the binary64 value nearest the rational \<open>b * 8 / (24 * 1000)\<close>, within a relative
  \<open>2 ^ -53\<close> of it. For 51200 bytes that value is 17.066666666666666, which prints
  as 17.0667 (the witness).
\<close>

theorem bitrate_reduction:
  "print_flow i s T =
     [Str ''======= '', Str ''FlowID: '', IntV i, Str '' ======='', Endl]
     @ tx_bitrate_line s T
     @ rx_bitrate_line s T
     @ [Str ''TX packets: '', U32 (txPackets s), Endl,
        Str ''RX packets: '', U32 (rxPackets s), Endl]
     @ mean_delay_line s
     @ loss_ratio_line s
   \<and> (nWifi < INT_MAX \<longrightarrow>
        PrintFlowStatistics flowStats nWifi =
          Inr (concat (map (\<lambda>j. print_flow j (fst (subscript flowStats (word_of_int j)))
                                (NanoSeconds 24000000000))
                         [2..nWifi])))
   \<and> (txBytes s = 0 \<longrightarrow>
        tx_bitrate_line s T = [Str ''TX bitrates: '', Str ''None'', Endl])
   \<and> (0 < txBytes s \<longrightarrow>
        tx_bitrate_line s T
          = [Str ''TX bitrates: '', Dbl (bitrate (txBytes s) T), Str '' kbit/s'', Endl])
   \<and> (rxBytes s = 0 \<longrightarrow>
        rx_bitrate_line s T = [Str ''RX bitrate: '', Str ''None'', Endl])
   \<and> (0 < rxBytes s \<longrightarrow>
        rx_bitrate_line s T
          = [Str ''RX bitrate: '', Dbl (bitrate (rxBytes s) T), Str '' kbit/s'', Endl])
   \<and> (GetSeconds T = Finite False d \<and> 2 powi (- 30) \<le> d \<and> d \<le> 2 powi 34 \<longrightarrow>
        bitrate b T
          = Finite False
              (round_binary64 (round_binary64 (of_nat (unat b)) * 8 / round_binary64 (d * 1000))))
   \<and> (1 \<le> k \<and> k \<le> 9223372036 \<longrightarrow>
        GetSeconds (NanoSeconds (k * 1000000000)) = Finite False (of_int k)
        \<and> round_binary64 (of_int k * 1000) = of_int k * 1000
        \<and> bitrate b (NanoSeconds (k * 1000000000))
            = Finite False (round_binary64 (round_binary64 (of_nat (unat b)) * 8 / (of_int k * 1000))))
   \<and> kSimulationStartTime = NanoSeconds 1000000000
   \<and> kSimulationStopTime = NanoSeconds 25000000000
   \<and> time_minus kSimulationStopTime kSimulationStartTime = NanoSeconds 24000000000
   \<and> GetSeconds (NanoSeconds 24000000000) = Finite False 24
   \<and> bitrate b (NanoSeconds 24000000000)
        = Finite False (round_binary64 (round_binary64 (of_nat (unat b)) * 8 / (24 * 1000)))
   \<and> (0 < b \<longrightarrow>
        0 < round_binary64 (round_binary64 (of_nat (unat b)) * 8 / (24 * 1000)))
   \<and> (0 < b \<and> unat b < 2 ^ 53 \<longrightarrow>
        round_binary64 (of_nat (unat b)) = of_nat (unat b)
        \<and> \<bar>round_binary64 (of_nat (unat b) * 8 / (24 * 1000)) - of_nat (unat b) * 8 / (24 * 1000)\<bar>
            \<le> (of_nat (unat b) * 8 / (24 * 1000)) / 2 ^ 53)"
proof -
  have T24: "time_minus kSimulationStopTime kSimulationStartTime = NanoSeconds 24000000000"
    by (simp add: kSimulationStopTime_def kSimulationStartTime_def Seconds_def)
  have block: "print_flow i s T =
     [Str ''======= '', Str ''FlowID: '', IntV i, Str '' ======='', Endl]
     @ tx_bitrate_line s T
     @ rx_bitrate_line s T
     @ [Str ''TX packets: '', U32 (txPackets s), Endl,
        Str ''RX packets: '', U32 (rxPackets s), Endl]
     @ mean_delay_line s
     @ loss_ratio_line s"
    by (simp add: print_flow_def)
  have report: "nWifi < INT_MAX \<longrightarrow>
        PrintFlowStatistics flowStats nWifi =
          Inr (concat (map (\<lambda>j. print_flow j (fst (subscript flowStats (word_of_int j)))
                                (NanoSeconds 24000000000))
                         [2..nWifi]))"
    using PrintFlowStatistics_run [of nWifi flowStats] by (simp only: T24) simp
  have tx0: "txBytes s = 0 \<longrightarrow>
        tx_bitrate_line s T = [Str ''TX bitrates: '', Str ''None'', Endl]"
    by (simp add: tx_bitrate_line_def)
  have tx1: "0 < txBytes s \<longrightarrow>
        tx_bitrate_line s T
          = [Str ''TX bitrates: '', Dbl (bitrate (txBytes s) T), Str '' kbit/s'', Endl]"
    by (simp add: tx_bitrate_line_def)
  have rx0: "rxBytes s = 0 \<longrightarrow>
        rx_bitrate_line s T = [Str ''RX bitrate: '', Str ''None'', Endl]"
    by (simp add: rx_bitrate_line_def)
  have rx1: "0 < rxBytes s \<longrightarrow>
        rx_bitrate_line s T
          = [Str ''RX bitrate: '', Dbl (bitrate (rxBytes s) T), Str '' kbit/s'', Endl]"
    by (simp add: rx_bitrate_line_def)
  have general: "GetSeconds T = Finite False d \<and> 2 powi (- 30) \<le> d \<and> d \<le> 2 powi 34 \<longrightarrow>
        bitrate b T
          = Finite False
              (round_binary64 (round_binary64 (of_nat (unat b)) * 8 / round_binary64 (d * 1000)))"
    using bitrate_general [of T d b] by blast
  have whole: "1 \<le> k \<and> k \<le> 9223372036 \<longrightarrow>
        GetSeconds (NanoSeconds (k * 1000000000)) = Finite False (of_int k)
        \<and> round_binary64 (of_int k * 1000) = of_int k * 1000
        \<and> bitrate b (NanoSeconds (k * 1000000000))
            = Finite False (round_binary64 (round_binary64 (of_nat (unat b)) * 8 / (of_int k * 1000)))"
  proof (intro impI conjI)
    assume k: "1 \<le> k \<and> k \<le> 9223372036"
    then show "GetSeconds (NanoSeconds (k * 1000000000)) = Finite False (of_int k)"
      by (intro GetSeconds_whole) auto
    have "round_binary64 (of_int (k * 1000) * 2 powi 0) = of_int (k * 1000) * 2 powi 0"
      using k by (intro round_binary64_exact) auto
    then show "round_binary64 (of_int k * 1000) = of_int k * 1000"
      by simp
    from k show "bitrate b (NanoSeconds (k * 1000000000))
            = Finite False (round_binary64 (round_binary64 (of_nat (unat b)) * 8 / (of_int k * 1000)))"
      by (intro bitrate_whole_seconds) auto
  qed
  have start: "kSimulationStartTime = NanoSeconds 1000000000"
    and stop: "kSimulationStopTime = NanoSeconds 25000000000"
    by (simp_all add: kSimulationStopTime_def kSimulationStartTime_def Seconds_def)
  have secs: "GetSeconds (NanoSeconds 24000000000) = Finite False 24"
    using simulationTime_seconds by (simp only: T24)
  have at24: "bitrate b (NanoSeconds 24000000000)
        = Finite False (round_binary64 (round_binary64 (of_nat (unat b)) * 8 / (24 * 1000)))"
    using bitrate_value [of b] by (simp only: T24)
  have positive: "0 < b \<longrightarrow>
        0 < round_binary64 (round_binary64 (of_nat (unat b)) * 8 / (24 * 1000))"
    using bitrate_positive [of b] by blast
  have accurate: "0 < b \<and> unat b < 2 ^ 53 \<longrightarrow>
        round_binary64 (of_nat (unat b)) = of_nat (unat b)
        \<and> \<bar>round_binary64 (of_nat (unat b) * 8 / (24 * 1000)) - of_nat (unat b) * 8 / (24 * 1000)\<bar>
            \<le> (of_nat (unat b) * 8 / (24 * 1000)) / 2 ^ 53"
  proof (intro impI)
    assume b: "0 < b \<and> unat b < 2 ^ 53"
    then have "0 < unat b"
      by (simp add: word_less_nat_alt)
    with b show "round_binary64 (of_nat (unat b)) = of_nat (unat b)
        \<and> \<bar>round_binary64 (of_nat (unat b) * 8 / (24 * 1000)) - of_nat (unat b) * 8 / (24 * 1000)\<bar>
            \<le> (of_nat (unat b) * 8 / (24 * 1000)) / 2 ^ 53"
      by (simp only: bitrate_accuracy)
  qed
  show ?thesis
    by (intro conjI block report tx0 tx1 rx0 rx1 general whole start stop T24 secs at24
        positive accurate)
qed

lemma round_256_15: "round_binary64 (256 / 15) = 4803839602528529 / 281474976710656"
proof -
  have "round_binary64 (256 / 15) = of_int 4803839602528529 * 2 powi (4 - 52)"
    by (rule round_binary64_eqI) simp_all
  then show ?thesis by simp
qed

lemma round_1024_25: "round_binary64 (1024 / 25) = 5764607523034235 / 140737488355328"
proof -
  have "round_binary64 (1024 / 25) = of_int 5764607523034235 * 2 powi (5 - 52)"
    by (rule round_binary64_eqI) simp_all
  then show ?thesis by simp
qed

lemma round_binary64_1: "round_binary64 1 = 1"
  using round_binary64_of_nat [of 1] by simp

lemma round_binary64_100: "round_binary64 100 = 100"
  using round_binary64_of_nat [of 100] by simp

lemma round_binary64_10000: "round_binary64 10000 = 10000"
  using round_binary64_of_nat [of 10000] by simp

lemma round_binary64_24000: "round_binary64 24000 = 24000"
  using round_binary64_of_nat [of 24000] by simp

theorem bitrate_reduction_witness:
  "(3 :: int) < 2147483647 \<and> INT_MAX = 2147483647
   \<and> (0 :: 64 word) < 51200 \<and> unat (51200 :: 64 word) < 2 ^ 53
   \<and> (0 :: 64 word) < 3000 \<and> unat (3000 :: 64 word) < 2 ^ 53
   \<and> (2::rat) powi (- 30) \<le> 24 \<and> (24::rat) \<le> 2 powi 34
   \<and> (1::int) \<le> 24 \<and> (24::int) \<le> 9223372036
   \<and> PrintFlowStatistics
        (Map.empty
          (2 \<mapsto> \<lparr>txBytes = 51200, rxBytes = 51200, txPackets = 100, rxPackets = 100,
                  lostPackets = 0, delaySum = NanoSeconds 500000\<rparr>,
           3 \<mapsto> \<lparr>txBytes = 3000, rxBytes = 0, txPackets = 6, rxPackets = 0,
                  lostPackets = 6, delaySum = NanoSeconds 0\<rparr>)) 3
      = Inr [Str ''======= '', Str ''FlowID: '', IntV 2, Str '' ======='', Endl,
             Str ''TX bitrates: '', Dbl (Finite False (4803839602528529 / 281474976710656)),
             Str '' kbit/s'', Endl,
             Str ''RX bitrate: '', Dbl (Finite False (4803839602528529 / 281474976710656)),
             Str '' kbit/s'', Endl,
             Str ''TX packets: '', U32 100, Endl,
             Str ''RX packets: '', U32 100, Endl,
             Str ''Mean delay: '', TimeV (NanoSeconds 5000), Endl,
             Str ''Packet loss ratio: '', Dbl (Finite False 0), Str ''%'', Endl,
             Str ''======= '', Str ''FlowID: '', IntV 3, Str '' ======='', Endl,
             Str ''TX bitrates: '', Dbl (Finite False 1), Str '' kbit/s'', Endl,
             Str ''RX bitrate: '', Str ''None'', Endl,
             Str ''TX packets: '', U32 6, Endl,
             Str ''RX packets: '', U32 0, Endl,
             Str ''Mean delay: '', Str ''None'', Endl,
             Str ''Packet loss ratio: '', Dbl (Finite False 100), Str ''%'', Endl]
   \<and> (1706665 / 100000 :: rat) \<le> 4803839602528529 / 281474976710656
   \<and> (4803839602528529 / 281474976710656 :: rat) < 1706675 / 100000
   \<and> GetSeconds (NanoSeconds 24000000000) = Finite False 24
   \<and> bitrate 51200 (NanoSeconds 24000000000)
       = Finite False (4803839602528529 / 281474976710656)
   \<and> (2::rat) powi (- 30) \<le> 10 \<and> (10::rat) \<le> 2 powi 34
   \<and> (1::int) \<le> 10 \<and> (10::int) \<le> 9223372036
   \<and> GetSeconds (NanoSeconds 10000000000) = Finite False 10
   \<and> bitrate 51200 (NanoSeconds 10000000000)
       = Finite False (5764607523034235 / 140737488355328)"
  using
    bitrate_reduction [where i = 2 and T = "NanoSeconds 24000000000" and nWifi = 3
      and b = 51200 and d = 24 and k = 24
      and s = "\<lparr>txBytes = 51200, rxBytes = 51200, txPackets = 100, rxPackets = 100,
                  lostPackets = 0, delaySum = NanoSeconds 500000\<rparr>"
      and flowStats = "Map.empty
          (2 \<mapsto> \<lparr>txBytes = 51200, rxBytes = 51200, txPackets = 100, rxPackets = 100,
                  lostPackets = 0, delaySum = NanoSeconds 500000\<rparr>,
           3 \<mapsto> \<lparr>txBytes = 3000, rxBytes = 0, txPackets = 6, rxPackets = 0,
                  lostPackets = 6, delaySum = NanoSeconds 0\<rparr>)"]
    bitrate_reduction [where i = 3 and T = "NanoSeconds 24000000000" and nWifi = 3
      and b = 3000 and d = 24 and k = 24
      and s = "\<lparr>txBytes = 3000, rxBytes = 0, txPackets = 6, rxPackets = 0,
                  lostPackets = 6, delaySum = NanoSeconds 0\<rparr>"
      and flowStats = "Map.empty
          (2 \<mapsto> \<lparr>txBytes = 51200, rxBytes = 51200, txPackets = 100, rxPackets = 100,
                  lostPackets = 0, delaySum = NanoSeconds 500000\<rparr>,
           3 \<mapsto> \<lparr>txBytes = 3000, rxBytes = 0, txPackets = 6, rxPackets = 0,
                  lostPackets = 6, delaySum = NanoSeconds 0\<rparr>)"]
    bitrate_reduction [where i = 2 and T = "NanoSeconds 10000000000" and nWifi = 3
      and b = 51200 and d = 10 and k = 10
      and s = "\<lparr>txBytes = 51200, rxBytes = 51200, txPackets = 100, rxPackets = 100,
                  lostPackets = 0, delaySum = NanoSeconds 500000\<rparr>"
      and flowStats = Map.empty]
    lossRatio_value [of "\<lparr>txBytes = 51200, rxBytes = 51200, txPackets = 100, rxPackets = 100,
                  lostPackets = 0, delaySum = NanoSeconds 500000\<rparr>"]
    lossRatio_value [of "\<lparr>txBytes = 3000, rxBytes = 0, txPackets = 6, rxPackets = 0,
                  lostPackets = 6, delaySum = NanoSeconds 0\<rparr>"]
  by (simp add: INT_MAX_def upto_rec1 subscript_def mean_delay_line_def loss_ratio_line_def
      sdiv_nonneg round_256_15 round_1024_25 round_binary64_1 round_binary64_100
      round_binary64_10000 round_binary64_24000)

text \<open>
  C3. The mean-delay line of every flow block carries \<open>delaySum / rxPackets\<close> when
  \<open>rxPackets > 0\<close> and \<open>None\<close> when \<open>rxPackets = 0\<close>, in which case no time value is
  printed at all. The quotient is ns-3's \<open>Time\<close> divided by an integer: for a delay sum
  that is not negative, the whole nanoseconds of the quotient.
\<close>

theorem mean_delay_reduction:
  "(\<exists>pre post. print_flow i s T = pre @ mean_delay_line s @ post)
   \<and> (0 < rxPackets s \<longrightarrow>
        mean_delay_line s
          = [Str ''Mean delay: '', TimeV (time_div (delaySum s) (rxPackets s)), Endl])
   \<and> (rxPackets s = 0 \<longrightarrow>
        mean_delay_line s = [Str ''Mean delay: '', Str ''None'', Endl]
        \<and> (\<forall>t. TimeV t \<notin> set (mean_delay_line s)))
   \<and> (0 \<le> d \<and> 0 < n \<longrightarrow> time_div (NanoSeconds d) n = NanoSeconds (d div uint n))"
proof (intro conjI impI allI)
  show "\<exists>pre post. print_flow i s T = pre @ mean_delay_line s @ post"
    unfolding print_flow_def by (metis append.assoc)
next
  assume "0 < rxPackets s"
  then show "mean_delay_line s
          = [Str ''Mean delay: '', TimeV (time_div (delaySum s) (rxPackets s)), Endl]"
    by (simp add: mean_delay_line_def)
next
  assume z: "rxPackets s = 0"
  then show "mean_delay_line s = [Str ''Mean delay: '', Str ''None'', Endl]"
    by (simp add: mean_delay_line_def)
  fix t
  from z show "TimeV t \<notin> set (mean_delay_line s)"
    by (simp add: mean_delay_line_def)
next
  assume "0 \<le> d \<and> 0 < n"
  then have d: "0 \<le> d"
    by simp
  have u: "0 \<le> uint n"
    by simp
  have "d sdiv uint n = d div uint n"
    using d u by (rule sdiv_nonneg)
  then show "time_div (NanoSeconds d) n = NanoSeconds (d div uint n)"
    by simp
qed

theorem mean_delay_reduction_witness:
  "(0 :: 32 word) < 4
   \<and> mean_delay_line \<lparr>txBytes = 5120, rxBytes = 2048, txPackets = 10, rxPackets = 4,
                        lostPackets = 6, delaySum = NanoSeconds 10\<rparr>
      = [Str ''Mean delay: '', TimeV (NanoSeconds 2), Endl]
   \<and> mean_delay_line \<lparr>txBytes = 5120, rxBytes = 0, txPackets = 10, rxPackets = 0,
                        lostPackets = 10, delaySum = NanoSeconds 0\<rparr>
      = [Str ''Mean delay: '', Str ''None'', Endl]
   \<and> (0 :: int) \<le> 10
   \<and> time_div (NanoSeconds 10) 4 = NanoSeconds 2"
  using
    mean_delay_reduction [of _ "\<lparr>txBytes = 5120, rxBytes = 2048, txPackets = 10, rxPackets = 4,
                        lostPackets = 6, delaySum = NanoSeconds 10\<rparr>" _ 10 4]
    mean_delay_reduction [of _ "\<lparr>txBytes = 5120, rxBytes = 0, txPackets = 10, rxPackets = 0,
                        lostPackets = 10, delaySum = NanoSeconds 0\<rparr>"]
  by simp

text \<open>
  C6. For a node count below the greatest \<open>int\<close>, \<open>PrintFlowStatistics\<close> returns
  normally and its output is one flow block per identifier of \<open>2, 3, \<dots>, nWifi\<close>, in
  that order, each made from what \<open>stats[i]\<close> yields: the identifiers printed are exactly
  \<open>[2..nWifi]\<close>, so 0 and 1 are never reported, whatever the container holds.
\<close>

theorem report_covers_flow_ids:
  assumes "nWifi < INT_MAX"
  shows "\<exists>out. PrintFlowStatistics flowStats nWifi = Inr out
           \<and> out = concat (map (\<lambda>i. print_flow i (fst (subscript flowStats (word_of_int i)))
                                   (time_minus kSimulationStopTime kSimulationStartTime))
                              [2..nWifi])
           \<and> ints_printed out = [2..nWifi]"
  using PrintFlowStatistics_run [OF assms, of flowStats]
  by (simp add: ints_printed_report)

theorem report_covers_flow_ids_witness:
  "(3 :: int) < INT_MAX
   \<and> (\<exists>out. PrintFlowStatistics
               [1 \<mapsto> \<lparr>txBytes = 512, rxBytes = 512, txPackets = 1, rxPackets = 1,
                        lostPackets = 0, delaySum = NanoSeconds 1000\<rparr>,
                2 \<mapsto> \<lparr>txBytes = 5120, rxBytes = 0, txPackets = 10, rxPackets = 0,
                        lostPackets = 10, delaySum = NanoSeconds 0\<rparr>] 3 = Inr out
             \<and> ints_printed out = [2, 3])"
  using report_covers_flow_ids [of 3
               "[1 \<mapsto> \<lparr>txBytes = 512, rxBytes = 512, txPackets = 1, rxPackets = 1,
                        lostPackets = 0, delaySum = NanoSeconds 1000\<rparr>,
                2 \<mapsto> \<lparr>txBytes = 5120, rxBytes = 0, txPackets = 10, rxPackets = 0,
                        lostPackets = 10, delaySum = NanoSeconds 0\<rparr>]"]
  by (simp add: INT_MAX_def upto_rec1)

text \<open>
  C10. When the container has no entry for an identifier \<open>i\<close> of \<open>2..nWifi\<close>, the call
  still returns normally: the blocks of the identifiers before \<open>i\<close>, then the block of
  \<open>i\<close> made from a value-initialised record (\<open>None\<close> for both bit rates and for the
  mean delay, 0 for both packet counts, and not-a-number, \<open>0 / 0\<close>, for the loss ratio),
  then the blocks of the identifiers after \<open>i\<close>.
\<close>

theorem missing_flow_entry:
  assumes "2 \<le> i" "i \<le> nWifi" "nWifi < INT_MAX" "flowStats (word_of_int i) = None"
  shows "PrintFlowStatistics flowStats nWifi =
     Inr (concat (map (\<lambda>j. print_flow j (fst (subscript flowStats (word_of_int j)))
                              (time_minus kSimulationStopTime kSimulationStartTime))
                    [2..i - 1])
          @ [Str ''======= '', Str ''FlowID: '', IntV i, Str '' ======='', Endl,
             Str ''TX bitrates: '', Str ''None'', Endl,
             Str ''RX bitrate: '', Str ''None'', Endl,
             Str ''TX packets: '', U32 0, Endl,
             Str ''RX packets: '', U32 0, Endl,
             Str ''Mean delay: '', Str ''None'', Endl,
             Str ''Packet loss ratio: '', Dbl NaN, Str ''%'', Endl]
          @ concat (map (\<lambda>j. print_flow j (fst (subscript flowStats (word_of_int j)))
                              (time_minus kSimulationStopTime kSimulationStartTime))
                    [i + 1..nWifi]))"
proof -
  have up: "[2..nWifi] = [2..i - 1] @ i # [i + 1..nWifi]"
    using assms(1,2) by (rule upto_split3)
  have "fst (subscript flowStats (word_of_int i)) = FlowStats_default"
    using assms(4) by (simp add: subscript_def)
  then show ?thesis
    by (simp add: PrintFlowStatistics_run [OF assms(3)] up print_flow_default)
qed

theorem missing_flow_entry_witness:
  "(2 :: int) \<le> 3 \<and> (3 :: int) \<le> 3 \<and> (3 :: int) < INT_MAX
   \<and> [2 \<mapsto> \<lparr>txBytes = 5120, rxBytes = 0, txPackets = 10, rxPackets = 0,
               lostPackets = 10, delaySum = NanoSeconds 0\<rparr>] (word_of_int 3 :: 32 word) = None
   \<and> PrintFlowStatistics
        [2 \<mapsto> \<lparr>txBytes = 5120, rxBytes = 0, txPackets = 10, rxPackets = 0,
                 lostPackets = 10, delaySum = NanoSeconds 0\<rparr>] 3 =
      Inr (print_flow 2 \<lparr>txBytes = 5120, rxBytes = 0, txPackets = 10, rxPackets = 0,
                          lostPackets = 10, delaySum = NanoSeconds 0\<rparr>
             (time_minus kSimulationStopTime kSimulationStartTime)
           @ [Str ''======= '', Str ''FlowID: '', IntV 3, Str '' ======='', Endl,
              Str ''TX bitrates: '', Str ''None'', Endl,
              Str ''RX bitrate: '', Str ''None'', Endl,
              Str ''TX packets: '', U32 0, Endl,
              Str ''RX packets: '', U32 0, Endl,
              Str ''Mean delay: '', Str ''None'', Endl,
              Str ''Packet loss ratio: '', Dbl NaN, Str ''%'', Endl])"
  using missing_flow_entry [of 3 3
        "[2 \<mapsto> \<lparr>txBytes = 5120, rxBytes = 0, txPackets = 10, rxPackets = 0,
                 lostPackets = 10, delaySum = NanoSeconds 0\<rparr>]"]
  by (simp add: INT_MAX_def subscript_def)


subsection \<open>One run and the sweep\<close>

lemma to_double_of_nat:
  assumes "n < 2 ^ 53"
  shows "to_double s (of_nat n) = Finite s (of_nat n)"
proof -
  have "(of_nat n :: rat) \<le> 2 powi int 53"
    using assms by (intro of_nat_le_power_int) simp
  also have "\<dots> \<le> 2 powi 1023"
    by (rule power_int_le_1023) simp
  finally have "to_double s (of_nat n) = Finite s (round_binary64 (of_nat n))"
    by (intro to_double_finite) auto
  then show ?thesis
    by (simp only: round_binary64_of_nat [OF assms])
qed

lemma int_to_double_nat:
  assumes "n < 2 ^ 53"
  shows "int_to_double (int n) = Finite False (of_nat n)"
  using to_double_of_nat [OF assms, of False] by (simp add: int_to_double_def)

lemma grid_position_value:
  assumes "k < 2 ^ 32"
  shows "grid_position k = (Finite False (of_nat (5 * (k mod 6))), Finite False (of_nat (10 * (k div 6))))"
proof -
  have c: "k mod 6 < 2 ^ 53" "5 * (k mod 6) < 2 ^ 53"
    using mod_less_divisor [of 6 k] by simp_all
  have r: "k div 6 < 2 ^ 53" "10 * (k div 6) < 2 ^ 53"
    using assms by simp_all
  have x1: "dmul kDeltaX (uint_to_double (k mod kGridWidth)) = Finite False (of_nat (5 * (k mod 6)))"
    using to_double_of_nat [OF c(2), of False]
    by (simp add: kDeltaX_def kGridWidth_def uint_to_double_exact [OF c(1)])
  have y1: "dmul kDeltaY (uint_to_double (k div kGridWidth)) = Finite False (of_nat (10 * (k div 6)))"
    using to_double_of_nat [OF r(2), of False]
    by (simp add: kDeltaY_def kGridWidth_def uint_to_double_exact [OF r(1)])
  have add0: "dadd (Finite False 0) (Finite False (of_nat n)) = Finite False (of_nat n)"
    if "n < 2 ^ 53" for n
    using to_double_of_nat [OF that, of False] by (simp add: signed_def Let_def)
  show ?thesis
    unfolding grid_position_def x1 y1 kMinX_def kMinY_def
    by (simp only: add0 [OF c(2)] add0 [OF r(2)])
qed

lemma grid_position_differs:
  assumes "1 \<le> k" "k < 2 ^ 32"
  shows "(Finite False (of_nat (10 * k)), Finite False 0) \<noteq> grid_position k"
proof (cases "k < 6")
  case True
  then have "10 * k \<noteq> 5 * (k mod 6)"
    using assms(1) by simp
  then have "(of_nat (10 * k) :: rat) \<noteq> of_nat (5 * (k mod 6))"
    by (simp only: of_nat_eq_iff not_False_eq_True)
  then show ?thesis
    by (simp only: grid_position_value [OF assms(2)]) simp
next
  case False
  then have "1 \<le> k div 6"
    by (simp add: Suc_le_eq div_greater_zero_iff)
  then have "10 * (k div 6) \<noteq> 0"
    by simp
  then have "(of_nat (10 * (k div 6)) :: rat) \<noteq> 0"
    by (simp only: of_nat_eq_0_iff not_False_eq_True)
  then show ?thesis
    by (simp only: grid_position_value [OF assms(2)]) simp
qed

lemma ExportAnimation_loop_run:
  assumes "0 \<le> i" "i \<le> nWifi" "nWifi \<le> 214748365" "length nodes = nat nWifi"
  shows "ExportAnimation_loop nodes nWifi i =
           Inr (map (\<lambda>k. SetConstantPosition (node_index (nodes ! k))
                           (Finite False (of_nat (10 * k))) (Finite False 0))
                  [nat i..<nat nWifi])"
  using assms
proof (induction nodes nWifi i rule: ExportAnimation_loop.induct)
  case (1 nodes nWifi i)
  show ?case
  proof (cases "i < nWifi")
    case False
    with "1.prems" show ?thesis
      by (simp add: ExportAnimation_loop.simps)
  next
    case True
    have len: "length nodes \<le> nat INT_MAX"
      using "1.prems" by (simp add: INT_MAX_def)
    have g: "Get nodes i = Inr (nodes ! nat i)"
      using Get_in_range [of "nat i" nodes] True "1.prems" len by simp
    have ov: "\<not> (INT_MAX < i * 10 \<or> i * 10 < - INT_MAX - 1)"
      using True "1.prems" by (simp add: INT_MAX_def)
    have ih: "ExportAnimation_loop nodes nWifi (i + 1) =
           Inr (map (\<lambda>k. SetConstantPosition (node_index (nodes ! k))
                           (Finite False (of_nat (10 * k))) (Finite False 0))
                  [nat (i + 1)..<nat nWifi])"
      using "1.IH" [OF True g ov] True "1.prems" by simp
    have up: "[nat i..<nat nWifi] = nat i # [nat (i + 1)..<nat nWifi]"
      using True "1.prems"(1) by (simp add: upt_conv_Cons nat_add_distrib)
    have "10 * nat i < 2 ^ 53"
      using True "1.prems" by simp
    from int_to_double_nat [OF this] have x: "int_to_double (i * 10) = Finite False (of_nat (10 * nat i))"
      using "1.prems"(1) by (simp add: mult.commute)
    have z: "int_to_double 0 = Finite False 0"
      using int_to_double_nat [of 0] by simp
    show ?thesis
      by (subst ExportAnimation_loop.simps) (simp add: True g ov ih up x z del: of_nat_mult)
  qed
qed

lemma ExportAnimation_run:
  assumes "0 \<le> nWifi" "nWifi \<le> 214748365" "length nodes = nat nWifi"
  shows "ExportAnimation nodes nWifi =
     Inr (AnimationInterface (''anim-'' @ to_string_int nWifi @ ''-nodes.xml'')
          # map (\<lambda>k. SetConstantPosition (node_index (nodes ! k))
                        (Finite False (of_nat (10 * k))) (Finite False 0))
              [0..<nat nWifi])"
  using ExportAnimation_loop_run [of 0 nWifi nodes] assms
  by (simp add: ExportAnimation_def)

lemma SetupWifiNodes_run:
  assumes "0 \<le> nWifi" "nWifi \<le> INT_MAX"
  shows "SetupWifiNodes nWifi =
     ([0..<nat nWifi],
      [NodesCreate (nat nWifi), MobilityInstall (map (\<lambda>k. (k, grid_position k)) [0..<nat nWifi])])"
  using assms by (simp add: SetupWifiNodes_def INT_MAX_def Let_def)


lemma RunSimulation_run:
  assumes "1 \<le> nWifi" "nWifi \<le> 214748365"
  shows "RunSimulation engine nWifi interval maxPackets =
     Inr (ConfigureLogging @ ConfigureRtsCtsThreshold
          @ [NodesCreate (nat nWifi),
             MobilityInstall (map (\<lambda>k. (k, grid_position k)) [0..<nat nWifi])]
          @ ([WifiInstall ''WIFI_STANDARD_80211p'' ''ns3::AdhocWifiMac'' [0..<nat nWifi],
              InternetStackInstall [0..<nat nWifi],
              Ipv4Assign ''10.1.1.0'' ''255.255.255.0'',
              PopulateRoutingTables]
             @ map (\<lambda>i. EnablePcap (''wifi-node-'' @ to_string_nat i @ ''.pcap'') i)
                 [0..<nat nWifi])
          @ [FlowMonitorInstallAll]
          @ map ApplicationInstall
              (map (\<lambda>i. client_app
                          \<lparr>node_index = (i + 1) mod nat nWifi,
                             local_address = assigned_address engine ((i + 1) mod nat nWifi)\<rparr>
                          \<lparr>node_index = i, local_address = assigned_address engine i\<rparr>
                          interval maxPackets)
                 [0..<nat nWifi]
               @ [server_app \<lparr>node_index = nat nWifi - 1,
                               local_address = assigned_address engine (nat nWifi - 1)\<rparr>])
          @ [SimulatorStop kSimulationStopTime,
             Cout (Str ''Simulation running...''), Cout Endl,
             SimulatorRun,
             SimulatorDestroy,
             SerializeToXmlFile (''flowmonitor-'' @ to_string_int nWifi @ ''-nodes.xml'')
               True True]
          @ (AnimationInterface (''anim-'' @ to_string_int nWifi @ ''-nodes.xml'')
             # map (\<lambda>k. SetConstantPosition k (Finite False (of_nat (10 * k))) (Finite False 0))
                 [0..<nat nWifi])
          @ [CheckForLostPackets, GetFlowStats]
          @ map Cout
              (concat (map (\<lambda>i. print_flow i (fst (subscript (flow_stats engine) (word_of_int i)))
                                    (time_minus kSimulationStopTime kSimulationStartTime))
                         [2..nWifi])))"
proof -
  define nodes where
    "nodes = map (\<lambda>k. \<lparr>node_index = k, local_address = assigned_address engine k\<rparr>) [0..<nat nWifi]"
  have len: "length nodes = nat nWifi"
    by (simp add: nodes_def)
  have nth: "nodes ! k = \<lparr>node_index = k, local_address = assigned_address engine k\<rparr>"
    if "k < nat nWifi" for k
    using that by (simp add: nodes_def)
  have im: "nWifi \<le> INT_MAX" "nWifi < INT_MAX"
    using assms(2) by (simp_all add: INT_MAX_def)
  have created: "SetupWifiNodes nWifi =
     ([0..<nat nWifi],
      [NodesCreate (nat nWifi), MobilityInstall (map (\<lambda>k. (k, grid_position k)) [0..<nat nWifi])])"
    using assms(1) im(1) by (intro SetupWifiNodes_run) auto
  have pc: "map (\<lambda>i. EnablePcap (''wifi-node-'' @ to_string_nat i @ ''.pcap'') ([0..<nat nWifi] ! i))
              [0..<length [0..<nat nWifi]]
            = map (\<lambda>i. EnablePcap (''wifi-node-'' @ to_string_nat i @ ''.pcap'') i) [0..<nat nWifi]"
    by (rule map_cong) auto
  have network: "SetupWifiNetwork (assigned_address engine) [0..<nat nWifi] =
     (nodes,
      [WifiInstall ''WIFI_STANDARD_80211p'' ''ns3::AdhocWifiMac'' [0..<nat nWifi],
       InternetStackInstall [0..<nat nWifi],
       Ipv4Assign ''10.1.1.0'' ''255.255.255.0'',
       PopulateRoutingTables]
      @ map (\<lambda>i. EnablePcap (''wifi-node-'' @ to_string_nat i @ ''.pcap'') i) [0..<nat nWifi])"
    unfolding SetupWifiNetwork_def pc by (simp add: nodes_def)
  have "map (\<lambda>i. client_app (nodes ! ((i + 1) mod nat nWifi)) (nodes ! i) interval maxPackets)
          [0..<nat nWifi]
        = map (\<lambda>i. client_app
                      \<lparr>node_index = (i + 1) mod nat nWifi,
                         local_address = assigned_address engine ((i + 1) mod nat nWifi)\<rparr>
                      \<lparr>node_index = i, local_address = assigned_address engine i\<rparr>
                      interval maxPackets)
            [0..<nat nWifi]"
    using assms(1) by (intro map_cong) (auto simp: nth)
  moreover have "nodes ! (nat nWifi - 1)
      = \<lparr>node_index = nat nWifi - 1, local_address = assigned_address engine (nat nWifi - 1)\<rparr>"
    using assms(1) by (intro nth) auto
  ultimately have apps: "SetupApplications nodes nWifi interval maxPackets =
      Inr (map (\<lambda>i. client_app
                      \<lparr>node_index = (i + 1) mod nat nWifi,
                         local_address = assigned_address engine ((i + 1) mod nat nWifi)\<rparr>
                      \<lparr>node_index = i, local_address = assigned_address engine i\<rparr>
                      interval maxPackets)
            [0..<nat nWifi]
           @ [server_app \<lparr>node_index = nat nWifi - 1,
                           local_address = assigned_address engine (nat nWifi - 1)\<rparr>])"
    using SetupApplications_ok [OF assms(1) im(1) len, of interval maxPackets] by simp
  have "map (\<lambda>k. SetConstantPosition (node_index (nodes ! k))
                   (Finite False (of_nat (10 * k))) (Finite False 0)) [0..<nat nWifi]
        = map (\<lambda>k. SetConstantPosition k (Finite False (of_nat (10 * k))) (Finite False 0))
            [0..<nat nWifi]"
    by (intro map_cong) (auto simp: nth)
  then have anim: "ExportAnimation nodes nWifi =
     Inr (AnimationInterface (''anim-'' @ to_string_int nWifi @ ''-nodes.xml'')
          # map (\<lambda>k. SetConstantPosition k (Finite False (of_nat (10 * k))) (Finite False 0))
              [0..<nat nWifi])"
    using ExportAnimation_run [OF _ assms(2) len] assms(1) by simp
  note report = PrintFlowStatistics_run [OF im(2), of "flow_stats engine"]
  show ?thesis
    by (simp only: RunSimulation_def created network apps anim report prod.case sum.case)
qed

lemma lifecycle_append: "lifecycle (xs @ ys) = lifecycle xs @ lifecycle ys"
  by (induction xs rule: lifecycle.induct) auto

lemma xml_files_append: "xml_files (xs @ ys) = xml_files xs @ xml_files ys"
  by (induction xs rule: xml_files.induct) auto

lemma pcap_files_append: "pcap_files (xs @ ys) = pcap_files xs @ pcap_files ys"
  by (induction xs rule: pcap_files.induct) auto

lemma observe_EnablePcap:
  "lifecycle (map (\<lambda>i. EnablePcap (f i) (g i)) xs) = []"
  "xml_files (map (\<lambda>i. EnablePcap (f i) (g i)) xs) = []"
  "pcap_files (map (\<lambda>i. EnablePcap (f i) (g i)) xs) = map f xs"
  by (induction xs) auto

lemma observe_ApplicationInstall:
  "lifecycle (map ApplicationInstall as) = []"
  "xml_files (map ApplicationInstall as) = []"
  "pcap_files (map ApplicationInstall as) = []"
  by (induction as) auto

lemma observe_SetConstantPosition:
  "lifecycle (map (\<lambda>k. SetConstantPosition (f k) (g k) (h k)) xs) = []"
  "xml_files (map (\<lambda>k. SetConstantPosition (f k) (g k) (h k)) xs) = []"
  "pcap_files (map (\<lambda>k. SetConstantPosition (f k) (g k) (h k)) xs) = []"
  by (induction xs) auto

lemma observe_Cout:
  "lifecycle (map Cout os) = []"
  "xml_files (map Cout os) = []"
  "pcap_files (map Cout os) = []"
  by (induction os) auto

lemmas observe_run =
  lifecycle_append xml_files_append pcap_files_append
  observe_EnablePcap observe_ApplicationInstall observe_SetConstantPosition observe_Cout
  ConfigureLogging_def ConfigureRtsCtsThreshold_def

lemma RunSimulation_observed:
  assumes "1 \<le> nWifi" "nWifi \<le> 214748365"
  shows "\<exists>evs. RunSimulation engine nWifi interval maxPackets = Inr evs
           \<and> lifecycle evs = [NodesCreate (nat nWifi), SimulatorRun, SimulatorDestroy]
           \<and> xml_files evs = [''flowmonitor-'' @ to_string_int nWifi @ ''-nodes.xml'',
                               ''anim-'' @ to_string_int nWifi @ ''-nodes.xml'']
           \<and> pcap_files evs =
               map (\<lambda>i. ''wifi-node-'' @ to_string_nat i @ ''.pcap'') [0..<nat nWifi]"
  unfolding RunSimulation_run [OF assms]
  by (simp add: observe_run del: map_append)

lemma main_loop_run:
  assumes "1 \<le> node"
  shows "\<exists>runs.
           map (\<lambda>N. RunSimulation (engine N) N interval maxPackets) [node..30]
             = map (\<lambda>N. Inr (runs N)) [node..30]
           \<and> main_loop engine interval maxPackets node =
               Inr (concat (map (\<lambda>N. runs N
                                    @ [Cout (Str ''Simulation for ''), Cout (IntV N),
                                       Cout (Str '' nodes''), Cout Endl])
                              [node..30]))
           \<and> lifecycle (concat (map (\<lambda>N. runs N
                                    @ [Cout (Str ''Simulation for ''), Cout (IntV N),
                                       Cout (Str '' nodes''), Cout Endl])
                              [node..30]))
               = concat (map (\<lambda>N. [NodesCreate (nat N), SimulatorRun, SimulatorDestroy])
                           [node..30])"
  using assms
proof (induction engine interval maxPackets node rule: main_loop.induct)
  case (1 engine interval maxPackets node)
  show ?case
  proof (cases "node \<le> 30")
    case False
    then show ?thesis
      by (simp add: main_loop.simps)
  next
    case True
    obtain run where run: "RunSimulation (engine node) node interval maxPackets = Inr run"
      "lifecycle run = [NodesCreate (nat node), SimulatorRun, SimulatorDestroy]"
      using RunSimulation_observed [of node "engine node" interval maxPackets] True "1.prems"
      by auto
    obtain runs where runs:
      "map (\<lambda>N. RunSimulation (engine N) N interval maxPackets) [node + 1..30]
         = map (\<lambda>N. Inr (runs N)) [node + 1..30]"
      "main_loop engine interval maxPackets (node + 1) =
         Inr (concat (map (\<lambda>N. runs N
                              @ [Cout (Str ''Simulation for ''), Cout (IntV N),
                                 Cout (Str '' nodes''), Cout Endl])
                        [node + 1..30]))"
      "lifecycle (concat (map (\<lambda>N. runs N
                              @ [Cout (Str ''Simulation for ''), Cout (IntV N),
                                 Cout (Str '' nodes''), Cout Endl])
                        [node + 1..30]))
         = concat (map (\<lambda>N. [NodesCreate (nat N), SimulatorRun, SimulatorDestroy])
                     [node + 1..30])"
      using "1.IH" [OF True run(1)] "1.prems" by auto
    define runs' where "runs' = runs(node := run)"
    have same: "runs' N = runs N" if "N \<in> set [node + 1..30]" for N
      using that by (simp add: runs'_def)
    have r0: "runs' node = run"
      by (simp add: runs'_def)
    have tail: "map (\<lambda>N. runs' N
                              @ [Cout (Str ''Simulation for ''), Cout (IntV N),
                                 Cout (Str '' nodes''), Cout Endl])
                  [node + 1..30]
                = map (\<lambda>N. runs N
                              @ [Cout (Str ''Simulation for ''), Cout (IntV N),
                                 Cout (Str '' nodes''), Cout Endl])
                  [node + 1..30]"
      by (rule map_cong) (simp_all add: same)
    have up: "[node..30] = node # [node + 1..30]"
      using True by (rule upto_rec1)
    have a: "map (\<lambda>N. RunSimulation (engine N) N interval maxPackets) [node..30]
             = map (\<lambda>N. Inr (runs' N)) [node..30]"
      unfolding up using runs(1) run(1)
      by (simp add: r0 same cong: map_cong)
    have b: "main_loop engine interval maxPackets node =
               Inr (concat (map (\<lambda>N. runs' N
                                    @ [Cout (Str ''Simulation for ''), Cout (IntV N),
                                       Cout (Str '' nodes''), Cout Endl])
                              [node..30]))"
      unfolding up
      by (subst main_loop.simps) (simp add: True run(1) runs(2) r0 tail)
    have c: "lifecycle (concat (map (\<lambda>N. runs' N
                                    @ [Cout (Str ''Simulation for ''), Cout (IntV N),
                                       Cout (Str '' nodes''), Cout Endl])
                              [node..30]))
               = concat (map (\<lambda>N. [NodesCreate (nat N), SimulatorRun, SimulatorDestroy])
                           [node..30])"
      unfolding up using runs(3)
      by (simp add: lifecycle_append run(2) r0 tail)
    show ?thesis
      by (intro exI [of _ runs'] conjI a b c)
  qed
qed

text \<open>
  C7. Whatever the command line and whatever the simulator returns, \<open>main\<close> ends
  normally, every run of 2..30 nodes ends normally, and the calls of \<open>main\<close> are the
  calls of the run with 2 nodes and its closing line, then those of the run with 3
  nodes, and so on up to 30: one run per node count, in ascending order, none begun
  before the one before it has returned. Within them the calls that create, execute and
  destroy simulator state are, in this order: create 2 nodes, run, destroy; create 3
  nodes, run, destroy; up to create 30 nodes, run, destroy.
\<close>

theorem sweep_runs_in_order:
  "\<exists>runs evs.
      map (\<lambda>N. RunSimulation (engine N) N
                  (case arg_interval of None \<Rightarrow> 5 | Some v \<Rightarrow> v)
                  (case arg_maxPackets of None \<Rightarrow> 10 | Some v \<Rightarrow> v)) [2..30]
        = map (\<lambda>N. Inr (runs N)) [2..30]
    \<and> main engine arg_maxPackets arg_interval = Inr evs
    \<and> evs = concat (map (\<lambda>N. runs N
                              @ [Cout (Str ''Simulation for ''), Cout (IntV N),
                                 Cout (Str '' nodes''), Cout Endl])
                        [2..30])
    \<and> lifecycle evs =
        concat (map (\<lambda>N. [NodesCreate (nat N), SimulatorRun, SimulatorDestroy]) [2..30])"
proof -
  define interval where "interval = (case arg_interval of None \<Rightarrow> 5 | Some v \<Rightarrow> v)"
  define maxPackets where "maxPackets = (case arg_maxPackets of None \<Rightarrow> 10 | Some v \<Rightarrow> v)"
  have one: "(1::int) \<le> 2"
    by simp
  from main_loop_run [OF one, of engine interval maxPackets]
  obtain runs where runs:
    "map (\<lambda>N. RunSimulation (engine N) N interval maxPackets) [2..30]
       = map (\<lambda>N. Inr (runs N)) [2..30]"
    "main_loop engine interval maxPackets 2 =
       Inr (concat (map (\<lambda>N. runs N
                            @ [Cout (Str ''Simulation for ''), Cout (IntV N),
                               Cout (Str '' nodes''), Cout Endl])
                      [2..30]))"
    "lifecycle (concat (map (\<lambda>N. runs N
                            @ [Cout (Str ''Simulation for ''), Cout (IntV N),
                               Cout (Str '' nodes''), Cout Endl])
                      [2..30]))
       = concat (map (\<lambda>N. [NodesCreate (nat N), SimulatorRun, SimulatorDestroy]) [2..30])"
    by (elim exE conjE)
  have m: "main engine arg_maxPackets arg_interval = main_loop engine interval maxPackets 2"
    by (simp only: main_def Let_def interval_def maxPackets_def)
  show ?thesis
    unfolding m interval_def [symmetric] maxPackets_def [symmetric]
    by (intro exI [of _ runs] conjI exI [of _ "concat (map (\<lambda>N. runs N
                            @ [Cout (Str ''Simulation for ''), Cout (IntV N),
                               Cout (Str '' nodes''), Cout Endl])
                      [2..30])"] runs refl)
qed

lemma to_string_nat_digits:
  "\<exists>ds. to_string_nat n = map (\<lambda>d. ''0123456789'' ! d) ds
        \<and> (\<forall>d \<in> set ds. d < 10)
        \<and> ds \<noteq> [] \<and> (0 < n \<longrightarrow> hd ds \<noteq> 0)
        \<and> foldl (\<lambda>a d. 10 * a + d) 0 ds = n"
proof (induction n rule: to_string_nat.induct)
  case (1 n)
  define dig where "dig = (\<lambda>d::nat. ''0123456789'' ! d)"
  show ?case
    unfolding dig_def [symmetric]
  proof (cases "n < 10")
    case True
    have "to_string_nat n = [dig n]"
      by (subst to_string_nat.simps) (simp only: True if_True dig_def)
    then have "to_string_nat n = map dig [n] \<and> (\<forall>d \<in> set [n]. d < 10)
        \<and> [n] \<noteq> [] \<and> (0 < n \<longrightarrow> hd [n] \<noteq> 0)
        \<and> foldl (\<lambda>a d. 10 * a + d) 0 [n] = n"
      using True by simp
    then show "\<exists>ds. to_string_nat n = map dig ds
        \<and> (\<forall>d \<in> set ds. d < 10)
        \<and> ds \<noteq> [] \<and> (0 < n \<longrightarrow> hd ds \<noteq> 0)
        \<and> foldl (\<lambda>a d. 10 * a + d) 0 ds = n"
      by (rule exI)
  next
    case False
    from "1.IH" [OF False] obtain ds where ds: "to_string_nat (n div 10) = map dig ds"
      "\<forall>d \<in> set ds. d < 10" "ds \<noteq> []" "0 < n div 10 \<longrightarrow> hd ds \<noteq> 0"
      "foldl (\<lambda>a d. 10 * a + d) 0 ds = n div 10"
      unfolding dig_def [symmetric] by (elim exE conjE)
    have q: "0 < n div 10"
      using False by (simp add: div_greater_zero_iff)
    have "to_string_nat n = to_string_nat (n div 10) @ [dig (n mod 10)]"
      by (subst to_string_nat.simps) (simp only: False if_False dig_def)
    then have a: "to_string_nat n = map dig (ds @ [n mod 10])"
      by (simp only: ds(1) map_append list.map)
    have b: "\<forall>d \<in> set (ds @ [n mod 10]). d < 10"
      using ds(2) by simp
    have c: "ds @ [n mod 10] \<noteq> []"
      by simp
    have d: "0 < n \<longrightarrow> hd (ds @ [n mod 10]) \<noteq> 0"
      using ds(3,4) q by simp
    have e: "foldl (\<lambda>a d. 10 * a + d) 0 (ds @ [n mod 10]) = n"
      using ds(5) by simp
    have "to_string_nat n = map dig (ds @ [n mod 10])
        \<and> (\<forall>d \<in> set (ds @ [n mod 10]). d < 10)
        \<and> ds @ [n mod 10] \<noteq> [] \<and> (0 < n \<longrightarrow> hd (ds @ [n mod 10]) \<noteq> 0)
        \<and> foldl (\<lambda>a d. 10 * a + d) 0 (ds @ [n mod 10]) = n"
      by (intro conjI a b c d e)
    then show "\<exists>ds. to_string_nat n = map dig ds
        \<and> (\<forall>d \<in> set ds. d < 10)
        \<and> ds \<noteq> [] \<and> (0 < n \<longrightarrow> hd ds \<noteq> 0)
        \<and> foldl (\<lambda>a d. 10 * a + d) 0 ds = n"
      by (rule exI)
  qed
qed


text \<open>
  C8. A run with \<open>N\<close> nodes (\<open>N\<close> from 1 up to the bound that keeps \<open>i * 10\<close> an
  \<open>int\<close>; the sweep runs 2..30) names exactly two XML files, the flow report
  \<open>flowmonitor-<N>-nodes.xml\<close> and then the animation trace \<open>anim-<N>-nodes.xml\<close>.
  \<open><N>\<close> is the decimal numeral of \<open>N\<close>: a list of digits without a leading zero
  whose value, read in base ten, is \<open>N\<close>; so the two names carry the node count of
  their own run, and no other argument of the run enters them. The only other files of
  the run are the pcap traces that \<open>SetupWifiNetwork\<close> enables, one per node, named by
  the node index and not by \<open>N\<close>.
\<close>

theorem run_artifacts:
  assumes "1 \<le> nWifi" "nWifi \<le> 214748365"
  shows "\<exists>evs ds. RunSimulation engine nWifi interval maxPackets = Inr evs
           \<and> xml_files evs = [''flowmonitor-'' @ to_string_int nWifi @ ''-nodes.xml'',
                               ''anim-'' @ to_string_int nWifi @ ''-nodes.xml'']
           \<and> to_string_int nWifi = map (\<lambda>d. ''0123456789'' ! d) ds
           \<and> (\<forall>d \<in> set ds. d < 10) \<and> ds \<noteq> [] \<and> hd ds \<noteq> 0
           \<and> foldl (\<lambda>a d. 10 * a + d) 0 ds = nat nWifi
           \<and> pcap_files evs =
               map (\<lambda>i. ''wifi-node-'' @ to_string_nat i @ ''.pcap'') [0..<nat nWifi]"
proof -
  from RunSimulation_observed [OF assms, of engine interval maxPackets]
  obtain evs where evs: "RunSimulation engine nWifi interval maxPackets = Inr evs"
    "xml_files evs = [''flowmonitor-'' @ to_string_int nWifi @ ''-nodes.xml'',
                      ''anim-'' @ to_string_int nWifi @ ''-nodes.xml'']"
    "pcap_files evs = map (\<lambda>i. ''wifi-node-'' @ to_string_nat i @ ''.pcap'') [0..<nat nWifi]"
    by (elim exE conjE)
  from to_string_nat_digits [of "nat nWifi"]
  obtain ds where ds: "to_string_nat (nat nWifi) = map (\<lambda>d. ''0123456789'' ! d) ds"
    "\<forall>d \<in> set ds. d < 10" "ds \<noteq> []" "0 < nat nWifi \<longrightarrow> hd ds \<noteq> 0"
    "foldl (\<lambda>a d. 10 * a + d) 0 ds = nat nWifi"
    by (elim exE conjE)
  have "to_string_int nWifi = to_string_nat (nat nWifi)"
    using assms(1) by (simp add: to_string_int_def)
  then have s: "to_string_int nWifi = map (\<lambda>d. ''0123456789'' ! d) ds"
    by (simp only: ds(1))
  have h: "hd ds \<noteq> 0"
    using ds(4) assms(1) by simp
  show ?thesis
    by (intro exI [of _ evs] exI [of _ ds] conjI evs s ds(2) ds(3) h ds(5))
qed

theorem run_artifacts_witness:
  "(1 :: int) \<le> 2 \<and> (2 :: int) \<le> 214748365
   \<and> (\<exists>evs. RunSimulation \<lparr>assigned_address = (\<lambda>k. 0x0A010101 + of_nat k),
                             flow_stats = Map.empty\<rparr> 2 5 10 = Inr evs
          \<and> xml_files evs = [''flowmonitor-2-nodes.xml'', ''anim-2-nodes.xml'']
          \<and> pcap_files evs = [''wifi-node-0.pcap'', ''wifi-node-1.pcap''])
   \<and> (1 :: int) \<le> 3 \<and> (3 :: int) \<le> 214748365
   \<and> (\<exists>evs. RunSimulation \<lparr>assigned_address = (\<lambda>k. 0x0A010101 + of_nat k),
                             flow_stats = Map.empty\<rparr> 3 5 10 = Inr evs
          \<and> xml_files evs = [''flowmonitor-3-nodes.xml'', ''anim-3-nodes.xml'']
          \<and> pcap_files evs = [''wifi-node-0.pcap'', ''wifi-node-1.pcap'', ''wifi-node-2.pcap''])
   \<and> (1 :: int) \<le> 30 \<and> (30 :: int) \<le> 214748365
   \<and> (\<exists>evs. RunSimulation \<lparr>assigned_address = (\<lambda>k. 0x0A010101 + of_nat k),
                             flow_stats = Map.empty\<rparr> 30 5 10 = Inr evs
          \<and> xml_files evs = [''flowmonitor-30-nodes.xml'', ''anim-30-nodes.xml'']
          \<and> length (pcap_files evs) = 30)"
proof -
  have n0: "to_string_nat 0 = ''0''" and n1: "to_string_nat 1 = ''1''"
    and n2: "to_string_nat 2 = ''2''" and n3: "to_string_nat 3 = ''3''"
    and s1: "to_string_nat (Suc 0) = ''1''"
    by (simp_all add: to_string_nat.simps)
  have n30: "to_string_nat 30 = ''30''"
    by (subst to_string_nat.simps) (simp add: n3)
  have i2: "to_string_int 2 = ''2''" and i3: "to_string_int 3 = ''3''"
    and i30: "to_string_int 30 = ''30''"
    by (simp_all add: to_string_int_def n2 n3 n30)
  have u2: "[0..<nat 2] = [0, 1]" and u3: "[0..<nat 3] = [0, 1, 2]"
    by (simp_all add: upt_conv_Cons)
  from run_artifacts [of 2 "\<lparr>assigned_address = (\<lambda>k. 0x0A010101 + of_nat k),
                             flow_stats = Map.empty\<rparr>" 5 10]
  have r2: "\<exists>evs. RunSimulation \<lparr>assigned_address = (\<lambda>k. 0x0A010101 + of_nat k),
                             flow_stats = Map.empty\<rparr> 2 5 10 = Inr evs
          \<and> xml_files evs = [''flowmonitor-2-nodes.xml'', ''anim-2-nodes.xml'']
          \<and> pcap_files evs = [''wifi-node-0.pcap'', ''wifi-node-1.pcap'']"
    by (simp only: i2 u2) (auto simp: n0 n1 s1)
  from run_artifacts [of 3 "\<lparr>assigned_address = (\<lambda>k. 0x0A010101 + of_nat k),
                             flow_stats = Map.empty\<rparr>" 5 10]
  have r3: "\<exists>evs. RunSimulation \<lparr>assigned_address = (\<lambda>k. 0x0A010101 + of_nat k),
                             flow_stats = Map.empty\<rparr> 3 5 10 = Inr evs
          \<and> xml_files evs = [''flowmonitor-3-nodes.xml'', ''anim-3-nodes.xml'']
          \<and> pcap_files evs = [''wifi-node-0.pcap'', ''wifi-node-1.pcap'', ''wifi-node-2.pcap'']"
    by (simp only: i3 u3) (auto simp: n0 n1 n2 s1)
  from run_artifacts [of 30 "\<lparr>assigned_address = (\<lambda>k. 0x0A010101 + of_nat k),
                             flow_stats = Map.empty\<rparr>" 5 10]
  have r30: "\<exists>evs. RunSimulation \<lparr>assigned_address = (\<lambda>k. 0x0A010101 + of_nat k),
                             flow_stats = Map.empty\<rparr> 30 5 10 = Inr evs
          \<and> xml_files evs = [''flowmonitor-30-nodes.xml'', ''anim-30-nodes.xml'']
          \<and> length (pcap_files evs) = 30"
    by (simp only: i30) auto
  show ?thesis
    using r2 r3 r30 by simp
qed

text \<open>
  C9. For a run with \<open>nWifi\<close> nodes, \<open>ExportAnimation\<close> gives node \<open>j\<close> the position
  \<open>(10 * j, 0)\<close>, from the loop index alone, while \<open>SetupWifiNodes\<close> has the mobility
  helper place node \<open>j\<close> on the grid; on the grid node \<open>k\<close> is at
  \<open>(5 * (k mod 6), 10 * (k div 6))\<close>, and for every \<open>k \<ge> 1\<close> of the run that differs
  from \<open>(10 * k, 0)\<close>.
\<close>

theorem animation_position_mismatch:
  assumes "1 \<le> nWifi" "nWifi \<le> 214748365" "length nodes = nat nWifi"
    and "1 \<le> k" "k < nat nWifi"
  shows "ExportAnimation nodes nWifi =
           Inr (AnimationInterface (''anim-'' @ to_string_int nWifi @ ''-nodes.xml'')
                # map (\<lambda>j. SetConstantPosition (node_index (nodes ! j))
                              (Finite False (of_nat (10 * j))) (Finite False 0))
                    [0..<nat nWifi])
         \<and> snd (SetupWifiNodes nWifi) =
             [NodesCreate (nat nWifi),
              MobilityInstall (map (\<lambda>j. (j, grid_position j)) [0..<nat nWifi])]
         \<and> grid_position k =
             (Finite False (of_nat (5 * (k mod 6))), Finite False (of_nat (10 * (k div 6))))
         \<and> (Finite False (of_nat (10 * k)), Finite False 0) \<noteq> grid_position k"
proof (intro conjI)
  show "ExportAnimation nodes nWifi =
           Inr (AnimationInterface (''anim-'' @ to_string_int nWifi @ ''-nodes.xml'')
                # map (\<lambda>j. SetConstantPosition (node_index (nodes ! j))
                              (Finite False (of_nat (10 * j))) (Finite False 0))
                    [0..<nat nWifi])"
    using assms(1,2,3) by (intro ExportAnimation_run) auto
  have "nWifi \<le> INT_MAX"
    using assms(2) by (simp add: INT_MAX_def)
  then show "snd (SetupWifiNodes nWifi) =
             [NodesCreate (nat nWifi),
              MobilityInstall (map (\<lambda>j. (j, grid_position j)) [0..<nat nWifi])]"
    using assms(1) by (simp add: SetupWifiNodes_run)
  have k: "k < 2 ^ 32"
    using assms(2,5) by simp
  show "grid_position k =
             (Finite False (of_nat (5 * (k mod 6))), Finite False (of_nat (10 * (k div 6))))"
    using k by (rule grid_position_value)
  show "(Finite False (of_nat (10 * k)), Finite False 0) \<noteq> grid_position k"
    using assms(4) k by (rule grid_position_differs)
qed

theorem animation_position_mismatch_witness:
  "(1 :: int) \<le> 8 \<and> (8 :: int) \<le> 214748365
   \<and> length (map (\<lambda>j. \<lparr>node_index = j, local_address = 0x0A010101 + of_nat j\<rparr>) [0..<8]) = nat 8
   \<and> (1 :: nat) \<le> 7 \<and> (7 :: nat) < nat 8
   \<and> grid_position 7 = (Finite False 5, Finite False 10)
   \<and> (Finite False 70, Finite False 0) \<noteq> grid_position 7"
  using animation_position_mismatch [of 8
      "map (\<lambda>j. \<lparr>node_index = j, local_address = 0x0A010101 + of_nat j\<rparr>) [0..<8]" 7]
  by simp

end
